theory Spec2Isabelle
  imports Complex_Main
begin

section \<open>Vectors and matrices\<close>

text \<open>
  The program computes with numpy arrays of length 3 and with 3 by 3 matrices. Numbers
  are modelled as real numbers with exact arithmetic: a vector is a triple, a matrix is
  the triple of its rows. Where numpy would produce a value that is not a finite number
  (a division by zero), the model says so with an explicit result.
\<close>

type_synonym vec3 = "real \<times> real \<times> real"
type_synonym matrix = "vec3 \<times> vec3 \<times> vec3"

fun np_inner :: "vec3 \<Rightarrow> vec3 \<Rightarrow> real" where
  "np_inner (a1, a2, a3) (b1, b2, b3) = a1 * b1 + a2 * b2 + a3 * b3"

fun vadd :: "vec3 \<Rightarrow> vec3 \<Rightarrow> vec3" where
  "vadd (a1, a2, a3) (b1, b2, b3) = (a1 + b1, a2 + b2, a3 + b3)"

fun vsub :: "vec3 \<Rightarrow> vec3 \<Rightarrow> vec3" where
  "vsub (a1, a2, a3) (b1, b2, b3) = (a1 - b1, a2 - b2, a3 - b3)"

fun vscale :: "real \<Rightarrow> vec3 \<Rightarrow> vec3" where
  "vscale s (a1, a2, a3) = (s * a1, s * a2, s * a3)"

fun vneg :: "vec3 \<Rightarrow> vec3" where
  "vneg (a1, a2, a3) = (- a1, - a2, - a3)"

text \<open>\<open>R.dot(pt)\<close> and \<open>R @ pt\<close>: the matrix applied to a column vector.\<close>

fun dot :: "matrix \<Rightarrow> vec3 \<Rightarrow> vec3" where
  "dot (r1, r2, r3) v = (np_inner r1 v, np_inner r2 v, np_inner r3 v)"

text \<open>\<open>A @ B\<close>: the matrix product, row \<open>i\<close> of \<open>A\<close> against column \<open>j\<close> of \<open>B\<close>.\<close>

fun matmul :: "matrix \<Rightarrow> matrix \<Rightarrow> matrix" where
  "matmul (a1, a2, a3) ((b11, b12, b13), (b21, b22, b23), (b31, b32, b33)) =
     (let c1 = (b11, b21, b31); c2 = (b12, b22, b32); c3 = (b13, b23, b33)
      in ((np_inner a1 c1, np_inner a1 c2, np_inner a1 c3),
          (np_inner a2 c1, np_inner a2 c2, np_inner a2 c3),
          (np_inner a3 c1, np_inner a3 c2, np_inner a3 c3)))"

section \<open>Rotation matrices\<close>

text \<open>
  \<open>Rx\<close>, \<open>Ry\<close> and \<open>Rz\<close> of \<open>cube.py\<close>; the package reaches the functions of these
  names through its \<open>rotation\<close> module.
\<close>

definition Rx :: "real \<Rightarrow> matrix" where
  "Rx theta = ((1, 0, 0),
               (0, cos theta, sin theta),
               (0, - sin theta, cos theta))"

definition Ry :: "real \<Rightarrow> matrix" where
  "Ry theta = ((cos theta, 0, - sin theta),
               (0, 1, 0),
               (sin theta, 0, cos theta))"

definition Rz :: "real \<Rightarrow> matrix" where
  "Rz theta = ((cos theta, sin theta, 0),
               (- sin theta, cos theta, 0),
               (0, 0, 1))"

text \<open>
  The standard right-handed (counter-clockwise, active) rotation matrices, as the
  specification words them; they are compared with the three functions above.
\<close>

datatype axis = X | Y | Z

fun standard_rotation :: "axis \<Rightarrow> real \<Rightarrow> matrix" where
  "standard_rotation X theta = ((1, 0, 0),
                                (0, cos theta, - sin theta),
                                (0, sin theta, cos theta))"
| "standard_rotation Y theta = ((cos theta, 0, sin theta),
                                (0, 1, 0),
                                (- sin theta, 0, cos theta))"
| "standard_rotation Z theta = ((cos theta, - sin theta, 0),
                                (sin theta, cos theta, 0),
                                (0, 0, 1))"

fun rotation :: "axis \<Rightarrow> real \<Rightarrow> matrix" where
  "rotation X theta = Rx theta"
| "rotation Y theta = Ry theta"
| "rotation Z theta = Rz theta"

fun mtranspose :: "matrix \<Rightarrow> matrix" where
  "mtranspose ((a11, a12, a13), (a21, a22, a23), (a31, a32, a33)) =
     ((a11, a21, a31), (a12, a22, a32), (a13, a23, a33))"

section \<open>The unit cube\<close>

text \<open>
  Colour numbers of the terminal library (\<open>Screen.COLOUR_...\<close>).
\<close>

definition COLOUR_RED :: int where "COLOUR_RED = 1"
definition COLOUR_GREEN :: int where "COLOUR_GREEN = 2"
definition COLOUR_YELLOW :: int where "COLOUR_YELLOW = 3"
definition COLOUR_BLUE :: int where "COLOUR_BLUE = 4"
definition COLOUR_MAGENTA :: int where "COLOUR_MAGENTA = 5"
definition COLOUR_WHITE :: int where "COLOUR_WHITE = 7"

text \<open>
  Class \<open>Cube\<close> of \<open>cube/cube.py\<close>. The two dictionaries are association lists in
  insertion order, which is the order \<open>items()\<close> enumerates. The attribute
  \<open>back\<close> is the field \<open>back_face\<close>.
\<close>

record Cube =
  front :: "vec3 list"
  back_face :: "vec3 list"
  normal_vectors :: "(string \<times> vec3) list"
  colours :: "(string \<times> int) list"
  position :: vec3

definition Cube_init :: "vec3 \<Rightarrow> Cube" where
  "Cube_init pos =
     \<lparr> front = map (\<lambda>pt. vadd (vscale (1 / 2) pt) pos)
                 [(-1, 1, 1), (1, 1, 1), (1, -1, 1), (-1, -1, 1)],
       back_face = map (\<lambda>pt. vadd (vscale (1 / 2) pt) pos)
                 [(-1, 1, -1), (1, 1, -1), (1, -1, -1), (-1, -1, -1)],
       normal_vectors =
         [(''front'', (0, 0, 1)),
          (''back'', (0, 0, -1)),
          (''left'', (-1, 0, 0)),
          (''right'', (1, 0, 0)),
          (''top'', (0, 1, 0)),
          (''bottom'', (0, -1, 0))],
       colours =
         [(''front'', COLOUR_RED),
          (''back'', COLOUR_MAGENTA),
          (''left'', COLOUR_YELLOW),
          (''right'', COLOUR_WHITE),
          (''top'', COLOUR_GREEN),
          (''bottom'', COLOUR_BLUE)],
       position = pos \<rparr>"

text \<open>\<open>Cube.__rotation_update__\<close>.\<close>

definition rotation_update :: "matrix \<Rightarrow> Cube \<Rightarrow> Cube" where
  "rotation_update R c =
     c \<lparr> front := map (dot R) (front c),
         back_face := map (dot R) (back_face c),
         position := dot R (position c),
         normal_vectors := map (\<lambda>(face, normal). (face, dot R normal)) (normal_vectors c) \<rparr>"

definition rotate_x :: "Cube \<Rightarrow> real \<Rightarrow> Cube" where
  "rotate_x c theta = rotation_update (Rx theta) c"

definition rotate_y :: "Cube \<Rightarrow> real \<Rightarrow> Cube" where
  "rotate_y c theta = rotation_update (Ry theta) c"

definition rotate_z :: "Cube \<Rightarrow> real \<Rightarrow> Cube" where
  "rotate_z c theta = rotation_update (Rz theta) c"

datatype error = AttributeError | IndexError | KeyError | TypeError

text \<open>
  \<open>sorted(xs, key=k, reverse=True)\<close>: descending by key, and stable, so entries with
  equal keys keep their order.
\<close>

definition sorted_reverse :: "('a \<Rightarrow> real) \<Rightarrow> 'a list \<Rightarrow> 'a list" where
  "sorted_reverse k xs = sort_key (\<lambda>x. - k x) xs"

text \<open>\<open>Cube.get_face_colour\<close>.\<close>

definition get_face_colour :: "Cube \<Rightarrow> vec3 \<Rightarrow> error + int" where
  "get_face_colour c face_normal =
     (let face_list = map (\<lambda>(face, normal). (face, np_inner face_normal normal))
                          (normal_vectors c)
      in case sorted_reverse snd face_list of
           [] \<Rightarrow> Inl IndexError
         | best # _ \<Rightarrow>
             (case map_of (colours c) (fst best) of
                None \<Rightarrow> Inl KeyError
              | Some colour \<Rightarrow> Inr colour))"

section \<open>The assembly and the twist\<close>

text \<open>
  \<open>rubik_cube\<close> is a numpy array of shape (3, 3, 3) whose entries are references to
  27 \<open>Cube\<close> objects. The objects are mutated in place and the array is rewritten
  through views, so the model keeps the two apart: \<open>objects\<close> is the list of objects in
  the order of their creation, and \<open>cells\<close> is the array, each entry the index of an
  object.
\<close>

record rubik =
  cells :: "nat list list list"
  objects :: "Cube list"

text \<open>\<open>itertools.product\<close> of three sequences: the last one runs fastest.\<close>

definition product :: "'a list \<Rightarrow> 'b list \<Rightarrow> 'c list \<Rightarrow> ('a \<times> 'b \<times> 'c) list" where
  "product as bs cs = concat (map (\<lambda>a. concat (map (\<lambda>b. map (\<lambda>c. (a, b, c)) cs) bs)) as)"

text \<open>\<open>reshape(3, 3, 3)\<close> of a flat array of 27 entries, in row-major order.\<close>

definition reshape :: "'a list \<Rightarrow> 'a list list list" where
  "reshape xs =
     map (\<lambda>i. map (\<lambda>j. map (\<lambda>k. xs ! (9 * i + 3 * j + k)) [0..<3]) [0..<3]) [0..<3]"

definition rubik_cube :: rubik where
  "rubik_cube =
     \<lparr> cells = reshape [0..<27],
       objects = map Cube_init (product [-1, 0, 1] [1, 0, -1] [1, 0, -1]) \<rparr>"

text \<open>
  The three kinds of view the event loop takes of the array: \<open>rubik_cube[i]\<close>,
  \<open>rubik_cube[:, j]\<close> and \<open>rubik_cube[:, :, k]\<close>. Each is a 3 by 3 array; an index
  beyond the axis raises \<open>IndexError\<close>.
\<close>

datatype view = View0 nat | View1 nat | View2 nat

fun read_view :: "view \<Rightarrow> 'a list list list \<Rightarrow> error + 'a list list" where
  "read_view (View0 i) a = (if i < 3 then Inr (a ! i) else Inl IndexError)"
| "read_view (View1 j) a = (if j < 3 then Inr (map (\<lambda>plane. plane ! j) a) else Inl IndexError)"
| "read_view (View2 k) a =
     (if k < 3 then Inr (map (\<lambda>plane. map (\<lambda>row. row ! k) plane) a) else Inl IndexError)"

text \<open>
  \<open>face[:] = m\<close>: the assignment through the view writes the array below it. In
  \<open>rotate_face\<close> the right-hand side is itself a view of the same array; numpy
  assigns overlapping operands as if the right-hand side had been copied first, so
  \<open>m\<close> is the value read before the assignment.
\<close>

fun write_view :: "view \<Rightarrow> 'a list list \<Rightarrow> 'a list list list \<Rightarrow> 'a list list list" where
  "write_view (View0 i) m a = a[i := m]"
| "write_view (View1 j) m a = map2 (\<lambda>plane row. plane[j := row]) a m"
| "write_view (View2 k) m a =
     map2 (\<lambda>plane mrow. map2 (\<lambda>row x. row[k := x]) plane mrow) a m"

text \<open>
  \<open>np.rot90(m, k)\<close> on a two-dimensional array: \<open>k\<close> is reduced modulo 4; \<open>flip\<close> along
  the first axis reverses the rows, along the second axis reverses each row.
\<close>

definition rot90 :: "'a list list \<Rightarrow> int \<Rightarrow> 'a list list" where
  "rot90 m k =
     (let k = k mod 4 in
      if k = 0 then m
      else if k = 2 then map rev (rev m)
      else if k = 1 then transpose (map rev m)
      else map rev (transpose m))"

text \<open>
  \<open>getattr(Cube, name)\<close> for the names \<open>rotate_face\<close> builds; any other name built from
  \<open>"rotate_" + axis\<close> is not an attribute of the class.
\<close>

definition Cube_getattr :: "string \<Rightarrow> error + (Cube \<Rightarrow> real \<Rightarrow> Cube)" where
  "Cube_getattr name =
     (if name = ''rotate_x'' then Inr rotate_x
      else if name = ''rotate_y'' then Inr rotate_y
      else if name = ''rotate_z'' then Inr rotate_z
      else Inl AttributeError)"

text \<open>
  \<open>rotate_face\<close> of \<open>cube/__main__.py\<close>. The caller forms the view before the call, so
  a bad index fails first.
\<close>

definition rotate_face :: "view \<Rightarrow> string \<Rightarrow> bool \<Rightarrow> rubik \<Rightarrow> error + rubik" where
  "rotate_face face axis clockwise st =
     (case read_view face (cells st) of
        Inl e \<Rightarrow> Inl e
      | Inr m \<Rightarrow>
          (let direction = (if clockwise then 1 else - 1 :: int) in
           case Cube_getattr (''rotate_'' @ axis) of
             Inl e \<Rightarrow> Inl e
           | Inr rotate_fn \<Rightarrow>
               (let objs = fold (\<lambda>cube objs.
                                   objs[cube := rotate_fn (objs ! cube) (of_int direction * pi / 2)])
                                (concat m) (objects st);
                    direction = (if axis = ''z'' then direction * (- 1) else direction)
                in Inr (st \<lparr> objects := objs,
                             cells := write_view face (rot90 m (- direction)) (cells st) \<rparr>))))"

text \<open>The key codes of \<open>KeyboardCommand\<close>.\<close>

definition ord :: "char \<Rightarrow> int" where
  "ord c = of_char c"

definition rotate_front_ccw :: int where "rotate_front_ccw = ord CHR ''f''"
definition rotate_front_cw :: int where "rotate_front_cw = ord CHR ''F''"
definition rotate_top_ccw :: int where "rotate_top_ccw = ord CHR ''t''"
definition rotate_top_cw :: int where "rotate_top_cw = ord CHR ''T''"
definition rotate_middle_ccw :: int where "rotate_middle_ccw = ord CHR ''m''"
definition rotate_middle_cw :: int where "rotate_middle_cw = ord CHR ''M''"
definition rotate_back_ccw :: int where "rotate_back_ccw = ord CHR ''b''"
definition rotate_back_cw :: int where "rotate_back_cw = ord CHR ''B''"
definition rotate_bottom_ccw :: int where "rotate_bottom_ccw = ord CHR ''d''"
definition rotate_bottom_cw :: int where "rotate_bottom_cw = ord CHR ''D''"
definition rotate_left_ccw :: int where "rotate_left_ccw = ord CHR ''l''"
definition rotate_left_cw :: int where "rotate_left_cw = ord CHR ''L''"
definition rotate_right_ccw :: int where "rotate_right_ccw = ord CHR ''r''"
definition rotate_right_cw :: int where "rotate_right_cw = ord CHR ''R''"
definition reset_view :: int where "reset_view = ord CHR ''z''"
definition help_key :: int where "help_key = ord CHR ''h''"
definition quit :: int where "quit = ord CHR ''q''"

text \<open>
  The keyboard branch of \<open>main_event_loop\<close>, as far as it changes the assembly: the
  chain of comparisons in the order of the source. The keys for quitting, for the
  view reset and for the help screen, and every unbound key, leave the assembly as it
  is.
\<close>

definition key_event :: "int \<Rightarrow> rubik \<Rightarrow> error + rubik" where
  "key_event key st =
     (if key = quit then Inr st
      else if key = rotate_front_ccw then rotate_face (View2 0) ''z'' False st
      else if key = rotate_front_cw then rotate_face (View2 0) ''z'' True st
      else if key = rotate_top_cw then rotate_face (View1 0) ''y'' True st
      else if key = rotate_top_ccw then rotate_face (View1 0) ''y'' False st
      else if key = rotate_middle_ccw then rotate_face (View2 1) ''z'' False st
      else if key = rotate_middle_cw then rotate_face (View2 1) ''z'' True st
      else if key = rotate_back_ccw then rotate_face (View2 2) ''z'' False st
      else if key = rotate_back_cw then rotate_face (View2 2) ''z'' True st
      else if key = rotate_bottom_ccw then rotate_face (View1 2) ''y'' False st
      else if key = rotate_bottom_cw then rotate_face (View1 2) ''y'' True st
      else if key = rotate_left_ccw then rotate_face (View0 0) ''x'' False st
      else if key = rotate_left_cw then rotate_face (View0 0) ''x'' True st
      else if key = rotate_right_ccw then rotate_face (View0 2) ''x'' False st
      else if key = rotate_right_cw then rotate_face (View0 2) ''x'' True st
      else if key = reset_view then Inr st
      else if key = help_key then Inr st
      else Inr st)"

text \<open>
  The loop over a sequence of key presses, one event each: the key for quitting
  returns from the loop, so the keys after it are not read, and an exception ends the
  program.
\<close>

fun key_events :: "int list \<Rightarrow> rubik \<Rightarrow> error + rubik" where
  "key_events [] st = Inr st"
| "key_events (key # keys) st =
     (if key = quit then Inr st
      else case key_event key st of Inl e \<Rightarrow> Inl e | Inr st' \<Rightarrow> key_events keys st')"

section \<open>The camera\<close>

definition DISTANCE_TO_CAMERA :: real where
  "DISTANCE_TO_CAMERA = 6"

text \<open>
  Class \<open>Artist\<close> of \<open>cube/artist.py\<close>, without the handle of the screen: \<open>h\<close> and \<open>w\<close>
  are the height and the width of the screen in characters.
\<close>

record Artist =
  h :: int
  w :: int
  cx :: real
  cy :: real
  camera_position :: vec3
  camera_x :: vec3
  camera_y :: vec3
  camera_z :: vec3

definition set_initial_camera :: "Artist \<Rightarrow> Artist" where
  "set_initial_camera a =
     (let R = matmul (Ry (30 / 180 * pi)) (Rx (30 / 180 * pi))
      in a \<lparr> camera_position := dot R (0, 0, DISTANCE_TO_CAMERA),
             camera_x := dot R (1, 0, 0),
             camera_y := dot R (0, 1, 0),
             camera_z := vneg (dot R (0, 0, 1)) \<rparr>)"

text \<open>
  \<open>Artist.__init__\<close> for a screen of the given width and height: the four camera
  attributes do not exist before \<open>set_initial_camera\<close> assigns them, so the record
  they are written into starts with zero vectors.
\<close>

definition Artist_init :: "int \<times> int \<Rightarrow> Artist" where
  "Artist_init screen =
     set_initial_camera
       \<lparr> h = snd screen, w = fst screen,
         cx = of_int (fst screen) / 2, cy = of_int (snd screen) / 2,
         camera_position = (0, 0, 0), camera_x = (0, 0, 0),
         camera_y = (0, 0, 0), camera_z = (0, 0, 0) \<rparr>"

text \<open>
  A numpy result: either finite numbers, or an array with an entry that is infinite or
  not a number. numpy divides by zero without raising (it warns and yields \<open>inf\<close> or
  \<open>nan\<close>), and every sum and product with such an entry is again not finite.
\<close>

datatype 'a np_result = Finite 'a | NotFinite

text \<open>
  \<open>Artist.project3d\<close> of \<open>cube/artist.py\<close>: no test of the denominator. With a zero
  denominator the factor is \<open>inf\<close> and both coordinates are not finite.
\<close>

definition Artist_project3d :: "Artist \<Rightarrow> vec3 \<Rightarrow> (real \<times> real) np_result" where
  "Artist_project3d a point =
     (let d = np_inner (camera_z a) (vsub point (camera_position a))
      in if d = 0 then NotFinite
         else
           (let P = vadd (vscale (1 / d) (vsub point (camera_position a))) (camera_position a);
                x = np_inner P (camera_x a);
                y = np_inner P (camera_y a)
            in Finite (cx a * (1 + x), cy a * (1 - y))))"

datatype screen_op = Move "(real \<times> real) np_result" | Draw "(real \<times> real) np_result"

text \<open>\<open>Artist.line\<close> of \<open>cube/artist.py\<close>: the two calls it makes on the screen.\<close>

definition Artist_line :: "Artist \<Rightarrow> vec3 \<Rightarrow> vec3 \<Rightarrow> screen_op list" where
  "Artist_line a pt1 pt2 = [Move (Artist_project3d a pt1), Draw (Artist_project3d a pt2)]"

text \<open>
  \<open>project3d\<close> of \<open>cube.py\<close>, the module function, which tests the denominator and
  returns \<open>None\<close>.
\<close>

definition project3d :: "vec3 \<Rightarrow> vec3 \<Rightarrow> vec3 \<Rightarrow> vec3 \<Rightarrow> vec3 \<Rightarrow> (real \<times> real) option" where
  "project3d point cam_position cam_x cam_y cam_z =
     (if \<bar>np_inner cam_z (vsub point cam_position)\<bar> < 1 / 10 ^ 6 then None
      else
        (let P = vadd (vscale (1 / np_inner cam_z (vsub point cam_position))
                              (vsub point cam_position)) cam_position;
             x = np_inner P cam_x;
             y = np_inner P cam_y
         in Some (x, y)))"

text \<open>
  \<open>Artist.line\<close> of \<open>cube.py\<close>, whose class \<open>Artist\<close> has the same attributes. It
  unpacks the result of \<open>project3d\<close> as a pair: unpacking \<open>None\<close> raises
  \<open>TypeError\<close>.
\<close>

definition cube_py_line :: "Artist \<Rightarrow> vec3 \<Rightarrow> vec3 \<Rightarrow> error + screen_op list" where
  "cube_py_line a pt1 pt2 =
     (case project3d pt1 (camera_position a) (camera_x a) (camera_y a) (camera_z a) of
        None \<Rightarrow> Inl TypeError
      | Some (x1, y1) \<Rightarrow>
          (case project3d pt2 (camera_position a) (camera_x a) (camera_y a) (camera_z a) of
             None \<Rightarrow> Inl TypeError
           | Some (x2, y2) \<Rightarrow>
               Inr [Move (Finite (cx a * (1 + x1), cy a * (1 + y1))),
                    Draw (Finite (cx a * (1 + x2), cy a * (1 + y2)))]))"

text \<open>
  The variables of \<open>main_event_loop\<close> that the mouse branch reads and writes.
\<close>

record view_state =
  artist :: Artist
  camera_2d :: "int \<times> int"
  start_pos :: "int \<times> int"
  auto_mouse :: bool

text \<open>
  The mouse branch of \<open>main_event_loop\<close> for an event \<open>(x, y, buttons)\<close> on a screen of
  the given width and height. The accumulated drag is divided by the extent of the
  screen; for an extent of zero numpy yields \<open>inf\<close> or \<open>nan\<close> and the frame is not
  finite.
\<close>

definition mouse_event :: "int \<times> int \<Rightarrow> int \<times> int \<times> int \<Rightarrow> view_state \<Rightarrow> view_state np_result" where
  "mouse_event screen ev vs =
     (case ev of (mouse_x, mouse_y, mouse_buttons) \<Rightarrow>
        if mouse_buttons \<noteq> 0 then
          Finite (vs \<lparr> auto_mouse := \<not> auto_mouse vs, start_pos := (mouse_x, mouse_y) \<rparr>)
        else if auto_mouse vs then
          (let end_pos = (mouse_x, mouse_y);
               drag = (fst (camera_2d vs) + (fst end_pos - fst (start_pos vs)),
                       snd (camera_2d vs) + (snd end_pos - snd (start_pos vs)))
           in if fst screen = 0 \<or> snd screen = 0 then NotFinite
              else
                (let alpha = of_int (fst drag) / of_int (fst screen) * pi;
                     beta = of_int (snd drag) / of_int (snd screen) * pi;
                     R = matmul (Ry alpha) (Rx beta);
                     cam_x = dot R (1, 0, 0);
                     cam_y = dot R (0, 1, 0);
                     cam_z = vneg (dot R (0, 0, 1))
                 in Finite (vs \<lparr> camera_2d := drag,
                                  artist := (artist vs)
                                    \<lparr> camera_position := vscale DISTANCE_TO_CAMERA (vneg cam_z),
                                      camera_x := cam_x,
                                      camera_y := cam_y,
                                      camera_z := cam_z \<rparr>,
                                  start_pos := end_pos \<rparr>)))
        else Finite vs)"

section \<open>Concrete inputs\<close>

text \<open>
  A camera on the positive z axis at distance 6 that looks at the origin, on a screen of
  80 by 24 characters.
\<close>

definition axis_camera :: Artist where
  "axis_camera =
     \<lparr> h = 24, w = 80, cx = 40, cy = 12, camera_position = (0, 0, 6),
       camera_x = (1, 0, 0), camera_y = (0, 1, 0), camera_z = (0, 0, - 1) \<rparr>"

text \<open>The variables of the event loop before the first mouse event.\<close>

definition initial_view_state :: view_state where
  "initial_view_state =
     \<lparr> artist = Artist_init (80, 24), camera_2d = (0, 0), start_pos = (0, 0),
       auto_mouse = True \<rparr>"

section \<open>Layers and sequences of twists\<close>

text \<open>
  The event loop pairs each kind of view with one axis name: \<open>rubik_cube[i]\<close> with
  \<open>"x"\<close>, \<open>rubik_cube[:, j]\<close> with \<open>"y"\<close> and \<open>rubik_cube[:, :, k]\<close> with \<open>"z"\<close>. A twist
  of layer \<open>n\<close> of an axis is the call of \<open>rotate_face\<close> with that pairing.
\<close>

fun axis_name :: "axis \<Rightarrow> string" where
  "axis_name X = ''x''"
| "axis_name Y = ''y''"
| "axis_name Z = ''z''"

fun layer :: "axis \<Rightarrow> nat \<Rightarrow> view" where
  "layer X i = View0 i"
| "layer Y j = View1 j"
| "layer Z k = View2 k"

definition twist :: "axis \<Rightarrow> nat \<Rightarrow> bool \<Rightarrow> rubik \<Rightarrow> error + rubik" where
  "twist ax n clockwise st = rotate_face (layer ax n) (axis_name ax) clockwise st"

fun twists :: "(axis \<times> nat \<times> bool) list \<Rightarrow> rubik \<Rightarrow> error + rubik" where
  "twists [] st = Inr st"
| "twists ((ax, n, clockwise) # ms) st =
     (case twist ax n clockwise st of Inl e \<Rightarrow> Inl e | Inr st' \<Rightarrow> twists ms st')"

section \<open>Notions used in the properties\<close>

text \<open>An array of shape (3, 3) and one of shape (3, 3, 3).\<close>

definition shape2 :: "'a list list \<Rightarrow> bool" where
  "shape2 m \<longleftrightarrow> length m = 3 \<and> (\<forall>r\<in>set m. length r = 3)"

definition shape3 :: "'a list list list \<Rightarrow> bool" where
  "shape3 a \<longleftrightarrow> length a = 3 \<and> (\<forall>p\<in>set a. shape2 p)"

text \<open>
  A well-formed assembly: the array has its shape, there are 27 objects, and the
  entries of the array are 27 different references to them.
\<close>

definition well_formed :: "rubik \<Rightarrow> bool" where
  "well_formed st \<longleftrightarrow>
     shape3 (cells st) \<and> distinct (concat (concat (cells st))) \<and>
     length (objects st) = 27 \<and> (\<forall>n\<in>set (concat (concat (cells st))). n < 27)"

text \<open>
  The slots of the array are the index triples \<open>(i, j, k)\<close>; \<open>cell a (i, j, k)\<close> is the
  entry \<open>a[i, j, k]\<close>. The slots of a layer are those with the layer's index on the
  layer's axis, in the order in which the flattened view enumerates them.
\<close>

definition cell :: "'a list list list \<Rightarrow> nat \<times> nat \<times> nat \<Rightarrow> 'a" where
  "cell a p = (case p of (i, j, k) \<Rightarrow> a ! i ! j ! k)"

definition slots :: "(nat \<times> nat \<times> nat) list" where
  "slots = product [0, 1, 2] [0, 1, 2] [0, 1, 2]"

fun in_layer :: "axis \<Rightarrow> nat \<Rightarrow> nat \<times> nat \<times> nat \<Rightarrow> bool" where
  "in_layer X n (i, j, k) \<longleftrightarrow> i = n"
| "in_layer Y n (i, j, k) \<longleftrightarrow> j = n"
| "in_layer Z n (i, j, k) \<longleftrightarrow> k = n"

definition layer_slots :: "axis \<Rightarrow> nat \<Rightarrow> (nat \<times> nat \<times> nat) list" where
  "layer_slots ax n = filter (in_layer ax n) slots"

text \<open>The 3 by 3 array that the view of a layer reads.\<close>

definition layer_cells :: "axis \<Rightarrow> nat \<Rightarrow> 'a list list list \<Rightarrow> 'a list list" where
  "layer_cells ax n a = (case read_view (layer ax n) a of Inr m \<Rightarrow> m | Inl e \<Rightarrow> [])"

text \<open>
  The angle of a twist, \<open>direction * np.pi / 2\<close>, and the second argument that
  \<open>rotate_face\<close> passes to \<open>np.rot90\<close> for an axis and a direction.
\<close>

definition quarter :: "bool \<Rightarrow> real" where
  "quarter clockwise = of_int (if clockwise then 1 else - 1) * pi / 2"

definition turns :: "axis \<Rightarrow> bool \<Rightarrow> int" where
  "turns ax clockwise =
     (if ax = Z then (if clockwise then 1 else - 1) else (if clockwise then - 1 else 1))"

text \<open>The array after the slice of a layer has been rotated and written back.\<close>

definition turned :: "axis \<Rightarrow> nat \<Rightarrow> bool \<Rightarrow> 'a list list list \<Rightarrow> 'a list list list" where
  "turned ax n clockwise a =
     write_view (layer ax n) (rot90 (layer_cells ax n a) (turns ax clockwise)) a"

text \<open>
  The slot whose entry a twist moves into slot \<open>(i, j, k)\<close> of the twisted layer.
\<close>

fun source_cell :: "axis \<Rightarrow> bool \<Rightarrow> nat \<times> nat \<times> nat \<Rightarrow> nat \<times> nat \<times> nat" where
  "source_cell X clockwise (i, j, k) = (if clockwise then (i, 2 - k, j) else (i, k, 2 - j))"
| "source_cell Y clockwise (i, j, k) = (if clockwise then (2 - k, j, i) else (k, j, 2 - i))"
| "source_cell Z clockwise (i, j, k) = (if clockwise then (j, 2 - i, k) else (2 - j, i, k))"

text \<open>The list in which the entries at the indices in \<open>S\<close> are replaced by their images.\<close>

definition update_at :: "nat set \<Rightarrow> ('a \<Rightarrow> 'a) \<Rightarrow> 'a list \<Rightarrow> 'a list" where
  "update_at S f xs = map (\<lambda>n. if n \<in> S then f (xs ! n) else xs ! n) [0..<length xs]"

text \<open>
  The colours and the names of the faces, in the order of the dictionaries of
  \<open>Cube.__init__\<close>.
\<close>

definition colour_table :: "(string \<times> int) list" where
  "colour_table =
     [(''front'', COLOUR_RED), (''back'', COLOUR_MAGENTA), (''left'', COLOUR_YELLOW),
      (''right'', COLOUR_WHITE), (''top'', COLOUR_GREEN), (''bottom'', COLOUR_BLUE)]"

definition face_names :: "string list" where
  "face_names = [''front'', ''back'', ''left'', ''right'', ''top'', ''bottom'']"

text \<open>
  The matrix of the inner products of the normal vectors of a cube, in the order of
  its dictionary, and the matrix that six axis-aligned outward normals have: every
  normal is a unit vector, the normals of two opposite faces have inner product
  \<open>- 1\<close>, and all other pairs are orthogonal.
\<close>

definition gram :: "Cube \<Rightarrow> real list list" where
  "gram c = (let ns = map snd (normal_vectors c) in map (\<lambda>u. map (np_inner u) ns) ns)"

definition axis_gram :: "real list list" where
  "axis_gram =
     [[1, - 1, 0, 0, 0, 0],
      [- 1, 1, 0, 0, 0, 0],
      [0, 0, 1, - 1, 0, 0],
      [0, 0, - 1, 1, 0, 0],
      [0, 0, 0, 0, 1, - 1],
      [0, 0, 0, 0, - 1, 1]]"

text \<open>Unit vectors of which every two different ones are orthogonal.\<close>

definition pairwise_orthogonal_units :: "vec3 list \<Rightarrow> bool" where
  "pairwise_orthogonal_units ns \<longleftrightarrow>
     (\<forall>i<length ns. np_inner (ns ! i) (ns ! i) = 1) \<and>
     (\<forall>i<length ns. \<forall>j<length ns. i \<noteq> j \<longrightarrow> np_inner (ns ! i) (ns ! j) = 0)"

text \<open>
  The centre that the labelling of the array gives to a slot, and the assemblies in
  which every slot holds the cube with that centre.
\<close>

fun label :: "nat \<times> nat \<times> nat \<Rightarrow> vec3" where
  "label (i, j, k) = (real i - 1, 1 - real j, 1 - real k)"

definition labelled :: "rubik \<Rightarrow> bool" where
  "labelled st \<longleftrightarrow> (\<forall>p\<in>set slots. position (objects st ! cell (cells st) p) = label p)"

definition cube_ok :: "Cube \<Rightarrow> bool" where
  "cube_ok c \<longleftrightarrow>
     colours c = colour_table \<and> map fst (normal_vectors c) = face_names \<and> gram c = axis_gram"

definition invariant :: "rubik \<Rightarrow> bool" where
  "invariant st \<longleftrightarrow> well_formed st \<and> labelled st \<and> (\<forall>c\<in>set (objects st). cube_ok c)"

text \<open>Sequences of twists whose layer indices are 0, 1 or 2.\<close>

definition valid_moves :: "(axis \<times> nat \<times> bool) list \<Rightarrow> bool" where
  "valid_moves ms \<longleftrightarrow> (\<forall>(ax, n, clockwise)\<in>set ms. n < 3)"

text \<open>The slot in the middle of a layer.\<close>

fun layer_centre :: "axis \<Rightarrow> nat \<Rightarrow> nat \<times> nat \<times> nat" where
  "layer_centre X n = (n, 1, 1)"
| "layer_centre Y n = (1, n, 1)"
| "layer_centre Z n = (1, 1, n)"

text \<open>The initial assembly after one clockwise twist of the front layer.\<close>

definition front_turned :: rubik where
  "front_turned =
     rubik_cube \<lparr> objects := update_at {0, 3, 6, 9, 12, 15, 18, 21, 24}
                    (rotation_update (Rz (pi / 2))) (objects rubik_cube),
                  cells := turned Z 0 True (cells rubik_cube) \<rparr>"

section \<open>Properties\<close>

subsection \<open>Rotation matrices\<close>

lemma rotation_is_transposed:
  "rotation ax theta = mtranspose (standard_rotation ax theta)"
  by (cases ax) (simp_all add: Rx_def Ry_def Rz_def)

lemma rotation_is_negative:
  "rotation ax theta = standard_rotation ax (- theta)"
  by (cases ax) (simp_all add: Rx_def Ry_def Rz_def)

text \<open>
  C2, as stated: for every axis and every angle the rotation constructor returns the
  standard right-handed rotation matrix, so that the rotation about X maps
  \<open>(0, 1, 0)\<close> to \<open>(0, cos theta, sin theta)\<close>. This fails for the quarter turn about
  X: the constructor's matrix is not the standard one, and it maps \<open>(0, 1, 0)\<close> to
  \<open>(0, 0, - 1)\<close>, not to \<open>(0, 0, 1)\<close>.
\<close>

theorem rotation_not_right_handed:
  "rotation X (pi / 2) \<noteq> standard_rotation X (pi / 2) \<and>
   dot (rotation X (pi / 2)) (0, 1, 0) \<noteq> (0, cos (pi / 2), sin (pi / 2))"
  by (simp add: Rx_def)

text \<open>
  C2, amended: for every axis and every angle the rotation constructor returns the
  transpose of the standard right-handed rotation matrix, which is the standard
  rotation by the negated angle; the rotation about X maps \<open>(0, 1, 0)\<close> to
  \<open>(0, cos theta, - sin theta)\<close>, the one about Y maps \<open>(0, 0, 1)\<close> to
  \<open>(- sin theta, 0, cos theta)\<close> and the one about Z maps \<open>(1, 0, 0)\<close> to
  \<open>(cos theta, - sin theta, 0)\<close>.
\<close>

theorem rotation_left_handed:
  "rotation ax theta = mtranspose (standard_rotation ax theta) \<and>
   rotation ax theta = standard_rotation ax (- theta) \<and>
   dot (rotation X theta) (0, 1, 0) = (0, cos theta, - sin theta) \<and>
   dot (rotation Y theta) (0, 0, 1) = (- sin theta, 0, cos theta) \<and>
   dot (rotation Z theta) (1, 0, 0) = (cos theta, - sin theta, 0)"
  by (cases ax) (simp_all add: Rx_def Ry_def Rz_def)

subsection \<open>The camera\<close>

lemma reset_frame:
  "set_initial_camera a =
     a \<lparr> camera_position := (- (3 * sqrt 3 / 2), 3, 9 / 2),
         camera_x := (sqrt 3 / 2, 0, 1 / 2),
         camera_y := (1 / 4, sqrt 3 / 2, - (sqrt 3 / 4)),
         camera_z := (sqrt 3 / 4, - (1 / 2), - (3 / 4)) \<rparr>"
  by (simp add: set_initial_camera_def Rx_def Ry_def cos_30 sin_30 DISTANCE_TO_CAMERA_def)

lemma zero_drag_frame:
  assumes "auto_mouse vs" and "fst screen \<noteq> 0" and "snd screen \<noteq> 0"
    and "fst (camera_2d vs) + (mouse_x - fst (start_pos vs)) = 0"
    and "snd (camera_2d vs) + (mouse_y - snd (start_pos vs)) = 0"
  shows "mouse_event screen (mouse_x, mouse_y, 0) vs =
           Finite (vs \<lparr> camera_2d := (0, 0),
                        artist := (artist vs)
                          \<lparr> camera_position := (0, 0, DISTANCE_TO_CAMERA),
                            camera_x := (1, 0, 0),
                            camera_y := (0, 1, 0),
                            camera_z := (0, 0, - 1) \<rparr>,
                        start_pos := (mouse_x, mouse_y) \<rparr>)"
  using assms
  by (simp add: mouse_event_def Rx_def Ry_def Let_def del: of_int_add of_int_diff)

text \<open>
  C4, as stated: the camera update with zero accumulated drag produces the frame of
  the reset. This fails on the initial state of the event loop: a mouse event that
  leaves the accumulated drag at zero yields a frame whose right vector differs from
  the right vector of the reset.
\<close>

theorem zero_drag_is_not_reset:
  "mouse_event (80, 24) (0, 0, 0) initial_view_state =
     Finite (initial_view_state
       \<lparr> artist := (Artist_init (80, 24))
           \<lparr> camera_position := (0, 0, 6),
             camera_x := (1, 0, 0),
             camera_y := (0, 1, 0),
             camera_z := (0, 0, - 1) \<rparr> \<rparr>) \<and>
   camera_x (set_initial_camera (Artist_init (80, 24))) \<noteq> (1, 0, 0)"
  by (simp add: initial_view_state_def mouse_event_def Rx_def Ry_def Let_def reset_frame
      DISTANCE_TO_CAMERA_def)

text \<open>
  C4, amended: on a screen of non-zero extent and with mouse tracking on, a mouse
  event that brings the accumulated drag to zero produces the axis-aligned frame
  right = (1, 0, 0), up = (0, 1, 0), forward = (0, 0, - 1), with the position at
  distance D along +z from the origin. The reset produces a different frame, this one
  turned by 30 degrees about x and then 30 degrees about y:
  right = (sqrt 3 / 2, 0, 1 / 2), up = (1 / 4, sqrt 3 / 2, - sqrt 3 / 4),
  forward = (sqrt 3 / 4, - 1 / 2, - 3 / 4), position = (- 3 sqrt 3 / 2, 3, 9 / 2).
\<close>

theorem zero_drag_axis_frame:
  assumes "auto_mouse vs" and "fst screen \<noteq> 0" and "snd screen \<noteq> 0"
    and "fst (camera_2d vs) + (mouse_x - fst (start_pos vs)) = 0"
    and "snd (camera_2d vs) + (mouse_y - snd (start_pos vs)) = 0"
  shows "\<exists>vs'. mouse_event screen (mouse_x, mouse_y, 0) vs = Finite vs' \<and>
           camera_2d vs' = (0, 0) \<and>
           camera_x (artist vs') = (1, 0, 0) \<and>
           camera_y (artist vs') = (0, 1, 0) \<and>
           camera_z (artist vs') = (0, 0, - 1) \<and>
           camera_position (artist vs') = (0, 0, DISTANCE_TO_CAMERA) \<and>
           camera_x (set_initial_camera a) = (sqrt 3 / 2, 0, 1 / 2) \<and>
           camera_y (set_initial_camera a) = (1 / 4, sqrt 3 / 2, - (sqrt 3 / 4)) \<and>
           camera_z (set_initial_camera a) = (sqrt 3 / 4, - (1 / 2), - (3 / 4)) \<and>
           camera_position (set_initial_camera a) = (- (3 * sqrt 3 / 2), 3, 9 / 2)"
  using zero_drag_frame [OF assms] by (simp add: reset_frame)

theorem zero_drag_axis_frame_witness:
  "auto_mouse initial_view_state \<and>
   fst (80 :: int, 24 :: int) \<noteq> 0 \<and> snd (80 :: int, 24 :: int) \<noteq> 0 \<and>
   fst (camera_2d initial_view_state) + (0 - fst (start_pos initial_view_state)) = 0 \<and>
   snd (camera_2d initial_view_state) + (0 - snd (start_pos initial_view_state)) = 0 \<and>
   (\<exists>vs'. mouse_event (80, 24) (0, 0, 0) initial_view_state = Finite vs' \<and>
           camera_x (artist vs') = (1, 0, 0) \<and>
           camera_position (artist vs') = (0, 0, DISTANCE_TO_CAMERA) \<and>
           camera_x (set_initial_camera (artist initial_view_state)) = (sqrt 3 / 2, 0, 1 / 2))"
proof -
  have h1: "auto_mouse initial_view_state"
    and h2: "fst (80 :: int, 24 :: int) \<noteq> 0"
    and h3: "snd (80 :: int, 24 :: int) \<noteq> 0"
    and h4: "fst (camera_2d initial_view_state) + (0 - fst (start_pos initial_view_state)) = 0"
    and h5: "snd (camera_2d initial_view_state) + (0 - snd (start_pos initial_view_state)) = 0"
    by (simp_all add: initial_view_state_def)
  from zero_drag_axis_frame [OF h1 h2 h3 h4 h5, of "artist initial_view_state"]
    h1 h2 h3 h4 h5
  show ?thesis by blast
qed

lemma project3d_None_iff:
  "project3d point cam_position cam_x cam_y cam_z = None \<longleftrightarrow>
     \<bar>np_inner cam_z (vsub point cam_position)\<bar> < 1 / 10 ^ 6"
  by (simp add: project3d_def Let_def)

lemma Artist_project3d_NotFinite_iff:
  "Artist_project3d a point = NotFinite \<longleftrightarrow>
     np_inner (camera_z a) (vsub point (camera_position a)) = 0"
  by (simp add: Artist_project3d_def Let_def)

text \<open>
  C1: when the forward vector is nearly orthogonal to the vector from the camera to
  the point (absolute inner product below 1e-6), the projection reports that there is
  no projection and the caller leaves that primitive out. The code does otherwise at
  the point \<open>(0, 0, 6 - 2^-20)\<close> seen from the camera at \<open>(0, 0, 6)\<close> that looks along
  \<open>- z\<close>: the method of \<open>cube/artist.py\<close> has no such test and returns the screen
  point \<open>(40, 12)\<close>, which its caller draws; the function of \<open>cube.py\<close> returns
  \<open>None\<close>, and its caller raises \<open>TypeError\<close> on it.
\<close>

theorem degenerate_projection_not_skipped:
  "\<bar>np_inner (camera_z axis_camera)
      (vsub (0, 0, 6 - 1 / 2 ^ 20) (camera_position axis_camera))\<bar> < 1 / 10 ^ 6 \<and>
   Artist_project3d axis_camera (0, 0, 6 - 1 / 2 ^ 20) = Finite (40, 12) \<and>
   Artist_line axis_camera (0, 0, 6 - 1 / 2 ^ 20) (0, 0, 0) =
     [Move (Finite (40, 12)), Draw (Finite (40, 12))] \<and>
   project3d (0, 0, 6 - 1 / 2 ^ 20) (camera_position axis_camera) (camera_x axis_camera)
     (camera_y axis_camera) (camera_z axis_camera) = None \<and>
   cube_py_line axis_camera (0, 0, 6 - 1 / 2 ^ 20) (0, 0, 0) = Inl TypeError"
  by (simp add: axis_camera_def Artist_project3d_def Artist_line_def project3d_def
      cube_py_line_def Let_def)

subsection \<open>The array\<close>

lemma length3E:
  assumes "length xs = 3"
  obtains a b c where "xs = [a, b, c]"
  using assms by (auto simp: length_Suc_conv numeral_3_eq_3)

lemma shape2E:
  assumes "shape2 m"
  obtains a b c d e f g h i where "m = [[a, b, c], [d, e, f], [g, h, i]]"
proof -
  from assms have "length m = 3" by (simp add: shape2_def)
  then obtain r0 r1 r2 where m: "m = [r0, r1, r2]" by (rule length3E)
  with assms have "length r0 = 3" "length r1 = 3" "length r2 = 3"
    by (simp_all add: shape2_def)
  then obtain a b c d e f g h i where "r0 = [a, b, c]" "r1 = [d, e, f]" "r2 = [g, h, i]"
    by (metis length3E)
  with m show ?thesis using that by simp
qed

lemma shape3E:
  assumes "shape3 a"
  obtains x000 x001 x002 x010 x011 x012 x020 x021 x022 x100 x101 x102 x110 x111 x112 x120 x121 x122 x200 x201 x202 x210 x211 x212 x220 x221 x222
  where "a = [[[x000, x001, x002], [x010, x011, x012], [x020, x021, x022]], [[x100, x101, x102], [x110, x111, x112], [x120, x121, x122]], [[x200, x201, x202], [x210, x211, x212], [x220, x221, x222]]]"
proof -
  from assms have "length a = 3" by (simp add: shape3_def)
  then obtain p0 p1 p2 where a: "a = [p0, p1, p2]" by (rule length3E)
  with assms have s: "shape2 p0" "shape2 p1" "shape2 p2"
    by (simp_all add: shape3_def)
  from s(1) obtain x000 x001 x002 x010 x011 x012 x020 x021 x022
    where p0: "p0 = [[x000, x001, x002], [x010, x011, x012], [x020, x021, x022]]"
    by (rule shape2E)
  from s(2) obtain x100 x101 x102 x110 x111 x112 x120 x121 x122
    where p1: "p1 = [[x100, x101, x102], [x110, x111, x112], [x120, x121, x122]]"
    by (rule shape2E)
  from s(3) obtain x200 x201 x202 x210 x211 x212 x220 x221 x222
    where p2: "p2 = [[x200, x201, x202], [x210, x211, x212], [x220, x221, x222]]"
    by (rule shape2E)
  show ?thesis using that a p0 p1 p2 by simp
qed

lemma less3E:
  assumes "(i :: nat) < 3"
  obtains "i = 0" | "i = Suc 0" | "i = Suc (Suc 0)"
  using assms by arith

lemma shape3_turned:
  assumes "shape3 a" and "i < 3"
  shows "shape3 (turned ax i cw a)"
proof -
  from assms(1) obtain x000 x001 x002 x010 x011 x012 x020 x021 x022 x100 x101 x102 x110 x111 x112 x120 x121 x122 x200 x201 x202 x210 x211 x212 x220 x221 x222
  where a: "a = [[[x000, x001, x002], [x010, x011, x012], [x020, x021, x022]], [[x100, x101, x102], [x110, x111, x112], [x120, x121, x122]], [[x200, x201, x202], [x210, x211, x212], [x220, x221, x222]]]"
    by (rule shape3E)
  from assms(2) show ?thesis
    by (rule less3E; cases ax; cases cw)
       (simp_all add: a turned_def layer_cells_def turns_def rot90_def shape3_def shape2_def)
qed

lemma set_turned:
  assumes "shape3 a" and "i < 3"
  shows "set (concat (concat (turned ax i cw a))) = set (concat (concat a))"
proof -
  from assms(1) obtain x000 x001 x002 x010 x011 x012 x020 x021 x022 x100 x101 x102 x110 x111 x112 x120 x121 x122 x200 x201 x202 x210 x211 x212 x220 x221 x222
  where a: "a = [[[x000, x001, x002], [x010, x011, x012], [x020, x021, x022]], [[x100, x101, x102], [x110, x111, x112], [x120, x121, x122]], [[x200, x201, x202], [x210, x211, x212], [x220, x221, x222]]]"
    by (rule shape3E)
  from assms(2) show ?thesis
    by (rule less3E; cases ax; cases cw)
       (auto simp add: a turned_def layer_cells_def turns_def rot90_def)
qed

lemma length_cells:
  assumes "shape3 a"
  shows "length (concat (concat a)) = 27"
proof -
  from assms(1) obtain x000 x001 x002 x010 x011 x012 x020 x021 x022 x100 x101 x102 x110 x111 x112 x120 x121 x122 x200 x201 x202 x210 x211 x212 x220 x221 x222
  where a: "a = [[[x000, x001, x002], [x010, x011, x012], [x020, x021, x022]], [[x100, x101, x102], [x110, x111, x112], [x120, x121, x122]], [[x200, x201, x202], [x210, x211, x212], [x220, x221, x222]]]"
    by (rule shape3E)
  show ?thesis by (simp add: a)
qed

lemma turned_four:
  assumes "shape3 a" and "i < 3"
  shows "turned ax i cw (turned ax i cw (turned ax i cw (turned ax i cw a))) = a"
proof -
  from assms(1) obtain x000 x001 x002 x010 x011 x012 x020 x021 x022 x100 x101 x102 x110 x111 x112 x120 x121 x122 x200 x201 x202 x210 x211 x212 x220 x221 x222
  where a: "a = [[[x000, x001, x002], [x010, x011, x012], [x020, x021, x022]], [[x100, x101, x102], [x110, x111, x112], [x120, x121, x122]], [[x200, x201, x202], [x210, x211, x212], [x220, x221, x222]]]"
    by (rule shape3E)
  from assms(2) show ?thesis
    by (rule less3E; cases ax; cases cw)
       (simp_all add: a turned_def layer_cells_def turns_def rot90_def)
qed

lemma layer_cells_turned:
  assumes "shape3 a" and "i < 3"
  shows "layer_cells ax i (turned ax i cw a) = rot90 (layer_cells ax i a) (turns ax cw)"
proof -
  from assms(1) obtain x000 x001 x002 x010 x011 x012 x020 x021 x022 x100 x101 x102 x110 x111 x112 x120 x121 x122 x200 x201 x202 x210 x211 x212 x220 x221 x222
  where a: "a = [[[x000, x001, x002], [x010, x011, x012], [x020, x021, x022]], [[x100, x101, x102], [x110, x111, x112], [x120, x121, x122]], [[x200, x201, x202], [x210, x211, x212], [x220, x221, x222]]]"
    by (rule shape3E)
  from assms(2) show ?thesis
    by (rule less3E; cases ax; cases cw)
       (simp_all add: a turned_def layer_cells_def turns_def rot90_def)
qed

lemma set_layer_turned:
  assumes "shape3 a" and "i < 3"
  shows "set (concat (layer_cells ax i (turned ax i cw a))) = set (concat (layer_cells ax i a))"
proof -
  from assms(1) obtain x000 x001 x002 x010 x011 x012 x020 x021 x022 x100 x101 x102 x110 x111 x112 x120 x121 x122 x200 x201 x202 x210 x211 x212 x220 x221 x222
  where a: "a = [[[x000, x001, x002], [x010, x011, x012], [x020, x021, x022]], [[x100, x101, x102], [x110, x111, x112], [x120, x121, x122]], [[x200, x201, x202], [x210, x211, x212], [x220, x221, x222]]]"
    by (rule shape3E)
  from assms(2) show ?thesis
    by (rule less3E; cases ax; cases cw)
       (auto simp add: a turned_def layer_cells_def turns_def rot90_def)
qed

lemma cell_turned:
  assumes "shape3 a" and "n < 3" and "i < 3" and "j < 3" and "k < 3"
  shows "cell (turned ax n cw a) (i, j, k) =
    (if in_layer ax n (i, j, k) then cell a (source_cell ax cw (i, j, k)) else cell a (i, j, k))"
proof -
  from assms(1) obtain x000 x001 x002 x010 x011 x012 x020 x021 x022 x100 x101 x102 x110 x111 x112 x120 x121 x122 x200 x201 x202 x210 x211 x212 x220 x221 x222
  where a: "a = [[[x000, x001, x002], [x010, x011, x012], [x020, x021, x022]], [[x100, x101, x102], [x110, x111, x112], [x120, x121, x122]], [[x200, x201, x202], [x210, x211, x212], [x220, x221, x222]]]"
    by (rule shape3E)
  from assms(2-5) show ?thesis
    apply (elim less3E)
    apply (cases ax; cases cw; simp add: a turned_def layer_cells_def turns_def rot90_def cell_def numeral_2_eq_2)+
    done
qed

subsection \<open>Updates of the objects\<close>

lemma length_update_at [simp]: "length (update_at S f xs) = length xs"
  by (simp add: update_at_def)

lemma nth_update_at:
  "n < length xs \<Longrightarrow> update_at S f xs ! n = (if n \<in> S then f (xs ! n) else xs ! n)"
  by (simp add: update_at_def)

lemma update_at_step:
  assumes "i \<notin> S" and "i < length xs"
  shows "update_at S f (xs[i := f (xs ! i)]) = update_at (insert i S) f xs"
  using assms by (intro nth_equalityI) (auto simp: nth_update_at nth_list_update)

lemma fold_update_at:
  assumes "distinct ids" and "\<forall>i\<in>set ids. i < length xs"
  shows "fold (\<lambda>i ys. ys[i := f (ys ! i)]) ids xs = update_at (set ids) f xs"
  using assms
proof (induction ids arbitrary: xs)
  case Nil
  show ?case by (intro nth_equalityI) (simp_all add: nth_update_at)
next
  case (Cons i ids)
  have "fold (\<lambda>i ys. ys[i := f (ys ! i)]) (i # ids) xs =
        fold (\<lambda>i ys. ys[i := f (ys ! i)]) ids (xs[i := f (xs ! i)])" by simp
  also have "\<dots> = update_at (set ids) f (xs[i := f (xs ! i)])"
    using Cons.prems by (intro Cons.IH) simp_all
  also have "\<dots> = update_at (insert i (set ids)) f xs"
    using Cons.prems by (intro update_at_step) simp_all
  finally show ?case by simp
qed

lemma update_at_twice:
  "update_at S g (update_at S f xs) = update_at S (g \<circ> f) xs"
  by (intro nth_equalityI) (simp_all add: nth_update_at)

lemma update_at_id:
  assumes "\<And>x. f x = x"
  shows "update_at S f xs = xs"
  by (intro nth_equalityI) (simp_all add: nth_update_at assms)

lemma set_product: "set (product as bs cs) = set as \<times> set bs \<times> set cs"
  by (auto simp: product_def)

lemma less3_iff: "(i :: nat) < 3 \<longleftrightarrow> i \<in> {0, 1, 2}"
  by auto

lemma slots_iff: "(i, j, k) \<in> set slots \<longleftrightarrow> i < 3 \<and> j < 3 \<and> k < 3"
  unfolding slots_def set_product mem_Sigma_iff less3_iff by simp

lemma layer_slots_iff:
  "p \<in> set (layer_slots ax n) \<longleftrightarrow> p \<in> set slots \<and> in_layer ax n p"
  by (simp add: layer_slots_def)

lemma layer_cells_slots:
  assumes "shape3 a" and "n < 3"
  shows "concat (layer_cells ax n a) = map (cell a) (layer_slots ax n)"
proof -
  from assms(1) obtain x000 x001 x002 x010 x011 x012 x020 x021 x022 x100 x101 x102 x110 x111 x112 x120 x121 x122 x200 x201 x202 x210 x211 x212 x220 x221 x222
  where a: "a = [[[x000, x001, x002], [x010, x011, x012], [x020, x021, x022]], [[x100, x101, x102], [x110, x111, x112], [x120, x121, x122]], [[x200, x201, x202], [x210, x211, x212], [x220, x221, x222]]]"
    by (rule shape3E)
  from assms(2) show ?thesis
    by (rule less3E; cases ax)
       (simp_all add: a layer_cells_def layer_slots_def slots_def product_def cell_def
          numeral_2_eq_2)
qed

lemma cells_slots:
  assumes "shape3 a"
  shows "concat (concat a) = map (cell a) slots"
proof -
  from assms(1) obtain x000 x001 x002 x010 x011 x012 x020 x021 x022 x100 x101 x102 x110 x111 x112 x120 x121 x122 x200 x201 x202 x210 x211 x212 x220 x221 x222
  where a: "a = [[[x000, x001, x002], [x010, x011, x012], [x020, x021, x022]], [[x100, x101, x102], [x110, x111, x112], [x120, x121, x122]], [[x200, x201, x202], [x210, x211, x212], [x220, x221, x222]]]"
    by (rule shape3E)
  show ?thesis
    by (simp add: a slots_def product_def cell_def numeral_2_eq_2)
qed

lemma cell_inj:
  assumes "shape3 a" and "distinct (concat (concat a))"
    and "p \<in> set slots" and "q \<in> set slots"
  shows "cell a p = cell a q \<longleftrightarrow> p = q"
proof -
  from assms(1,2) have "distinct (map (cell a) slots)" by (simp add: cells_slots)
  then have "inj_on (cell a) (set slots)" by (simp add: distinct_map)
  with assms(3,4) show ?thesis by (auto dest: inj_onD)
qed

lemma in_layer_cells_iff:
  assumes "shape3 a" and "distinct (concat (concat a))" and "n < 3" and "p \<in> set slots"
  shows "cell a p \<in> set (concat (layer_cells ax n a)) \<longleftrightarrow> in_layer ax n p"
proof
  assume "cell a p \<in> set (concat (layer_cells ax n a))"
  then obtain q where q: "q \<in> set (layer_slots ax n)" and e: "cell a p = cell a q"
    using assms(1,3) by (auto simp: layer_cells_slots)
  from q have qs: "q \<in> set slots" and ql: "in_layer ax n q" by (simp_all add: layer_slots_iff)
  from cell_inj [OF assms(1,2,4) qs] e have "p = q" by simp
  with ql show "in_layer ax n p" by simp
next
  assume "in_layer ax n p"
  with assms(4) have "p \<in> set (layer_slots ax n)" by (simp add: layer_slots_iff)
  then show "cell a p \<in> set (concat (layer_cells ax n a))"
    using assms(1,3) by (simp add: layer_cells_slots)
qed

lemma distinct_layer_cells:
  assumes "shape3 a" and "distinct (concat (concat a))" and "n < 3"
  shows "distinct (concat (layer_cells ax n a))"
proof -
  from assms(1,2) have "distinct (map (cell a) slots)" by (simp add: cells_slots)
  then have "distinct (map (cell a) (filter (in_layer ax n) slots))"
    by (rule distinct_map_filter)
  then show ?thesis using assms(1,3) by (simp add: layer_cells_slots layer_slots_def)
qed

lemma layer_cells_subset:
  assumes "shape3 a" and "n < 3"
  shows "set (concat (layer_cells ax n a)) \<subseteq> set (concat (concat a))"
  using assms by (auto simp: layer_cells_slots cells_slots layer_slots_def)

subsection \<open>Quarter turns\<close>

lemma quarter_turn:
  "Rx (quarter True) = ((1, 0, 0), (0, 0, 1), (0, - 1, 0))"
  "Rx (quarter False) = ((1, 0, 0), (0, 0, - 1), (0, 1, 0))"
  "Ry (quarter True) = ((0, 0, - 1), (0, 1, 0), (1, 0, 0))"
  "Ry (quarter False) = ((0, 0, 1), (0, 1, 0), (- 1, 0, 0))"
  "Rz (quarter True) = ((0, 1, 0), (- 1, 0, 0), (0, 0, 1))"
  "Rz (quarter False) = ((0, - 1, 0), (1, 0, 0), (0, 0, 1))"
  by (simp_all add: quarter_def Rx_def Ry_def Rz_def)

lemma dot_quarter:
  "dot (Rx (quarter True)) (x, y, z) = (x, z, - y)"
  "dot (Rx (quarter False)) (x, y, z) = (x, - z, y)"
  "dot (Ry (quarter True)) (x, y, z) = (- z, y, x)"
  "dot (Ry (quarter False)) (x, y, z) = (z, y, - x)"
  "dot (Rz (quarter True)) (x, y, z) = (y, - x, z)"
  "dot (Rz (quarter False)) (x, y, z) = (- y, x, z)"
  by (simp_all add: quarter_turn)

lemma dot_quarter_four:
  "dot (rotation ax (quarter cw)) (dot (rotation ax (quarter cw))
     (dot (rotation ax (quarter cw)) (dot (rotation ax (quarter cw)) v))) = v"
  by (cases v; cases ax; cases cw) (simp_all add: dot_quarter)

lemma sin_cos_square [simp]: "sin t * sin t + cos t * cos t = (1 :: real)"
  using sin_cos_squared_add [of t] by (simp add: power2_eq_square)

lemma inner_dot_rotation:
  "np_inner (dot (rotation ax theta) u) (dot (rotation ax theta) v) = np_inner u v"
proof -
  obtain u1 u2 u3 v1 v2 v3 where uv: "u = (u1, u2, u3)" "v = (v1, v2, v3)"
    by (cases u, cases v) auto
  have *: "(c * a + s * b) * (c * a' + s * b') + (c * b - s * a) * (c * b' - s * a')
           = (s * s + c * c) * (a * a' + b * b')" for a b a' b' c s :: real
    by (simp add: algebra_simps)
  show ?thesis
  proof (cases ax)
    case X
    have "np_inner (dot (Rx theta) u) (dot (Rx theta) v) =
            u1 * v1 + ((cos theta * u2 + sin theta * u3) * (cos theta * v2 + sin theta * v3)
              + (cos theta * u3 - sin theta * u2) * (cos theta * v3 - sin theta * v2))"
      by (simp add: uv Rx_def algebra_simps)
    also have "\<dots> = np_inner u v" unfolding * by (simp add: uv)
    finally show ?thesis using X by simp
  next
    case Y
    have "np_inner (dot (Ry theta) u) (dot (Ry theta) v) =
            u2 * v2 + ((cos theta * u3 + sin theta * u1) * (cos theta * v3 + sin theta * v1)
              + (cos theta * u1 - sin theta * u3) * (cos theta * v1 - sin theta * v3))"
      by (simp add: uv Ry_def algebra_simps)
    also have "\<dots> = np_inner u v" unfolding * by (simp add: uv)
    finally show ?thesis using Y by simp
  next
    case Z
    have "np_inner (dot (Rz theta) u) (dot (Rz theta) v) =
            u3 * v3 + ((cos theta * u1 + sin theta * u2) * (cos theta * v1 + sin theta * v2)
              + (cos theta * u2 - sin theta * u1) * (cos theta * v2 - sin theta * v1))"
      by (simp add: uv Rz_def algebra_simps)
    also have "\<dots> = np_inner u v" unfolding * by (simp add: uv)
    finally show ?thesis using Z by simp
  qed
qed

lemma colours_rotation_update [simp]: "colours (rotation_update R c) = colours c"
  by (simp add: rotation_update_def)

lemma rotation_update_four:
  assumes "\<And>v. dot R (dot R (dot R (dot R v))) = v"
  shows "rotation_update R (rotation_update R (rotation_update R (rotation_update R c))) = c"
proof -
  have m: "map (\<lambda>x. dot R (dot R (dot R (dot R x)))) xs = xs" for xs
    by (simp add: assms)
  have n: "map (\<lambda>x. (fst x, dot R (dot R (dot R (dot R (snd x)))))) ys = ys"
    for ys :: "(string \<times> vec3) list"
    by (simp add: assms)
  show ?thesis
    by (simp add: rotation_update_def comp_def case_prod_beta assms m n)
qed

subsection \<open>The twist\<close>

lemma read_view_layer:
  "n < 3 \<Longrightarrow> read_view (layer ax n) a = Inr (layer_cells ax n a)"
  by (cases ax) (simp_all add: layer_cells_def)

lemma getattr_rotate:
  "Cube_getattr (''rotate_'' @ axis_name ax) = Inr (\<lambda>c theta. rotation_update (rotation ax theta) c)"
  by (cases ax) (simp_all add: Cube_getattr_def rotate_x_def [abs_def] rotate_y_def [abs_def]
      rotate_z_def [abs_def])

lemma turns_direction:
  "- (if axis_name ax = ''z'' then (if cw then 1 else - 1) * (- 1) else (if cw then 1 else - 1 :: int))
     = turns ax cw"
  by (cases ax) (simp_all add: turns_def)

lemma twist_eq:
  assumes "well_formed st" and "n < 3"
  shows "twist ax n cw st =
    Inr (st \<lparr> objects := update_at (set (concat (layer_cells ax n (cells st))))
                           (rotation_update (rotation ax (quarter cw))) (objects st),
              cells := turned ax n cw (cells st) \<rparr>)"
proof -
  let ?ids = "concat (layer_cells ax n (cells st))"
  from assms have s: "shape3 (cells st)" and d: "distinct (concat (concat (cells st)))"
    and b: "\<forall>m\<in>set (concat (concat (cells st))). m < length (objects st)"
    by (simp_all add: well_formed_def)
  have d': "distinct ?ids" using s d assms(2) by (rule distinct_layer_cells)
  have b': "\<forall>i\<in>set ?ids. i < length (objects st)"
    using b layer_cells_subset [OF s assms(2), of ax] by blast
  have f: "fold (\<lambda>cube objs. objs[cube := rotation_update (rotation ax (quarter cw)) (objs ! cube)])
             ?ids (objects st) =
           update_at (set ?ids) (rotation_update (rotation ax (quarter cw))) (objects st)"
    using d' b' by (rule fold_update_at)
  show ?thesis
    unfolding twist_def rotate_face_def
    by (simp only: read_view_layer [OF assms(2)] getattr_rotate sum.case Let_def
          turns_direction f quarter_def [symmetric] turned_def [symmetric])
qed

lemma well_formed_twist:
  assumes "well_formed st" and "n < 3"
  shows "\<exists>st'. twist ax n cw st = Inr st' \<and> well_formed st'"
proof -
  from assms have s: "shape3 (cells st)" and d: "distinct (concat (concat (cells st)))"
    and l: "length (objects st) = 27"
    and b: "\<forall>m\<in>set (concat (concat (cells st))). m < 27"
    by (simp_all add: well_formed_def)
  let ?a = "turned ax n cw (cells st)"
  have s': "shape3 ?a" using s assms(2) by (rule shape3_turned)
  have e: "set (concat (concat ?a)) = set (concat (concat (cells st)))"
    using s assms(2) by (rule set_turned)
  have "card (set (concat (concat ?a))) = card (set (concat (concat (cells st))))"
    by (simp only: e)
  also have "\<dots> = length (concat (concat (cells st)))" using d by (rule distinct_card)
  also have "\<dots> = length (concat (concat ?a))"
    by (simp only: length_cells [OF s] length_cells [OF s'])
  finally have d': "distinct (concat (concat ?a))" by (rule card_distinct)
  have b': "\<forall>m\<in>set (concat (concat ?a)). m < 27" using b by (simp only: e)
  show ?thesis
    unfolding twist_eq [OF assms]
    using s' d' b' l by (simp add: well_formed_def del: set_concat)
qed

lemma twist_four:
  assumes "well_formed st" and "n < 3"
  shows "twists [(ax, n, cw), (ax, n, cw), (ax, n, cw), (ax, n, cw)] st = Inr st"
proof -
  let ?S = "set (concat (layer_cells ax n (cells st)))"
  let ?f = "rotation_update (rotation ax (quarter cw))"
  define t where "t = (\<lambda>st :: rubik. st \<lparr> objects := update_at (set (concat (layer_cells ax n (cells st)))) ?f (objects st),
              cells := turned ax n cw (cells st) \<rparr>)"
  have step: "twist ax n cw s = Inr (t s) \<and> well_formed (t s)" if "well_formed s" for s
    using well_formed_twist [OF that assms(2), of ax cw] twist_eq [OF that assms(2), of ax cw]
    by (auto simp: t_def)
  have w1: "well_formed (t st)" using step [OF assms(1)] by simp
  have w2: "well_formed (t (t st))" using step [OF w1] by simp
  have w3: "well_formed (t (t (t st)))" using step [OF w2] by simp
  have run: "twists [(ax, n, cw), (ax, n, cw), (ax, n, cw), (ax, n, cw)] st = Inr (t (t (t (t st))))"
    using step [OF assms(1)] step [OF w1] step [OF w2] step [OF w3] by simp
  have sh: "shape3 (cells s)" if "well_formed s" for s using that by (simp add: well_formed_def)
  have S: "set (concat (layer_cells ax n (cells (t s)))) = set (concat (layer_cells ax n (cells s)))"
    if "well_formed s" for s
    using set_layer_turned [OF sh [OF that] assms(2)] by (simp add: t_def)
  have c: "cells (t (t (t (t st)))) = cells st"
    using turned_four [OF sh [OF assms(1)] assms(2), of ax cw] by (simp add: t_def)
  have o: "objects (t (t (t (t st)))) = update_at ?S (?f \<circ> ?f \<circ> ?f \<circ> ?f) (objects st)"
    using S [OF assms(1)] S [OF w1] S [OF w2]
    by (simp add: t_def update_at_twice comp_assoc)
  have "(?f \<circ> ?f \<circ> ?f \<circ> ?f) x = x" for x
    using rotation_update_four [of "rotation ax (quarter cw)" x] dot_quarter_four [of ax cw]
    by simp
  then have o': "objects (t (t (t (t st)))) = objects st"
    unfolding o by (rule update_at_id)
  have "t (t (t (t st))) = st \<lparr> objects := objects st, cells := cells st \<rparr>"
    unfolding o' [symmetric] c [symmetric] by (simp add: t_def)
  then show ?thesis using run by simp
qed

subsection \<open>The initial assembly and the keys\<close>

lemma cells_rubik_cube:
  "cells rubik_cube =
     [[[0, 1, 2], [3, 4, 5], [6, 7, 8]],
      [[9, 10, 11], [12, 13, 14], [15, 16, 17]],
      [[18, 19, 20], [21, 22, 23], [24, 25, 26]]]"
  by (simp add: rubik_cube_def reshape_def upt_rec eval_nat_numeral nth_append)

lemma objects_rubik_cube:
  "objects rubik_cube = map Cube_init
     [(- 1, 1, 1), (- 1, 1, 0), (- 1, 1, - 1), (- 1, 0, 1), (- 1, 0, 0), (- 1, 0, - 1),
      (- 1, - 1, 1), (- 1, - 1, 0), (- 1, - 1, - 1),
      (0, 1, 1), (0, 1, 0), (0, 1, - 1), (0, 0, 1), (0, 0, 0), (0, 0, - 1),
      (0, - 1, 1), (0, - 1, 0), (0, - 1, - 1),
      (1, 1, 1), (1, 1, 0), (1, 1, - 1), (1, 0, 1), (1, 0, 0), (1, 0, - 1),
      (1, - 1, 1), (1, - 1, 0), (1, - 1, - 1)]"
  by (simp add: rubik_cube_def product_def)

lemma well_formed_rubik_cube: "well_formed rubik_cube"
  by (simp add: well_formed_def cells_rubik_cube objects_rubik_cube shape3_def shape2_def)

lemma key_codes:
  "rotate_front_ccw = 102" "rotate_front_cw = 70" "rotate_top_ccw = 116" "rotate_top_cw = 84"
  "rotate_middle_ccw = 109" "rotate_middle_cw = 77" "rotate_back_ccw = 98" "rotate_back_cw = 66"
  "rotate_bottom_ccw = 100" "rotate_bottom_cw = 68" "rotate_left_ccw = 108" "rotate_left_cw = 76"
  "rotate_right_ccw = 114" "rotate_right_cw = 82" "reset_view = 122" "help_key = 104" "quit = 113"
  by (simp_all add: ord_def rotate_front_ccw_def rotate_front_cw_def rotate_top_ccw_def
      rotate_top_cw_def rotate_middle_ccw_def rotate_middle_cw_def rotate_back_ccw_def
      rotate_back_cw_def rotate_bottom_ccw_def rotate_bottom_cw_def rotate_left_ccw_def
      rotate_left_cw_def rotate_right_ccw_def rotate_right_cw_def reset_view_def help_key_def
      quit_def)

lemma key_event_twist:
  "key_event rotate_front_ccw st = twist Z 0 False st"
  "key_event rotate_front_cw st = twist Z 0 True st"
  "key_event rotate_middle_ccw st = twist Z 1 False st"
  "key_event rotate_middle_cw st = twist Z 1 True st"
  "key_event rotate_back_ccw st = twist Z 2 False st"
  "key_event rotate_back_cw st = twist Z 2 True st"
  "key_event rotate_top_ccw st = twist Y 0 False st"
  "key_event rotate_top_cw st = twist Y 0 True st"
  "key_event rotate_bottom_ccw st = twist Y 2 False st"
  "key_event rotate_bottom_cw st = twist Y 2 True st"
  "key_event rotate_left_ccw st = twist X 0 False st"
  "key_event rotate_left_cw st = twist X 0 True st"
  "key_event rotate_right_ccw st = twist X 2 False st"
  "key_event rotate_right_cw st = twist X 2 True st"
  by (simp_all add: key_event_def twist_def key_codes)

lemma key_event_cases:
  "key_event key st = Inr st \<or> (\<exists>ax n cw. n < 3 \<and> key_event key st = twist ax n cw st)"
proof -
  have "key_event key st = Inr st \<or>
        key_event key st \<in> {twist Z 0 False st, twist Z 0 True st, twist Z 1 False st,
          twist Z 1 True st, twist Z 2 False st, twist Z 2 True st, twist Y 0 False st,
          twist Y 0 True st, twist Y 2 False st, twist Y 2 True st, twist X 0 False st,
          twist X 0 True st, twist X 2 False st, twist X 2 True st}"
    by (simp add: key_event_def twist_def)
  then show ?thesis
    by (elim disjE insertE emptyE)
       (simp, (rule disjI2, (rule exI)+, rule conjI [rotated], assumption, simp)+)
qed

subsection \<open>Invariants of a cube\<close>

lemma gram_rotation_update:
  "gram (rotation_update (rotation ax theta) c) = gram c"
  by (simp add: gram_def rotation_update_def comp_def case_prod_beta inner_dot_rotation)

lemma names_rotation_update:
  "map fst (normal_vectors (rotation_update R c)) = map fst (normal_vectors c)"
  by (simp add: rotation_update_def comp_def case_prod_beta)

lemma cube_ok_rotation_update:
  "cube_ok c \<Longrightarrow> cube_ok (rotation_update (rotation ax theta) c)"
  by (simp add: cube_ok_def gram_rotation_update names_rotation_update)

lemma cube_ok_init: "cube_ok (Cube_init pos)"
  by (simp add: cube_ok_def Cube_init_def colour_table_def face_names_def gram_def axis_gram_def)

lemma set_update_at:
  assumes "\<forall>x\<in>set xs. P x" and "\<And>x. P x \<Longrightarrow> P (f x)"
  shows "\<forall>x\<in>set (update_at S f xs). P x"
  using assms by (auto simp: update_at_def)

lemma fixed_on_axis:
  assumes "dot (rotation ax (quarter cw)) v = v" and "dot (rotation ax (quarter cw)) u = u"
    and "np_inner u u = 1" and "np_inner v v = 1"
  shows "np_inner u v \<noteq> 0"
proof -
  obtain u1 u2 u3 v1 v2 v3 where uv: "u = (u1, u2, u3)" "v = (v1, v2, v3)"
    by (cases u, cases v) auto
  show ?thesis
  proof (cases ax)
    case X
    with assms(1,2) have "u2 = 0" "u3 = 0" "v2 = 0" "v3 = 0"
      by (cases cw; simp add: uv dot_quarter)+
    with assms(3,4) show ?thesis by (auto simp add: uv)
  next
    case Y
    with assms(1,2) have "u1 = 0" "u3 = 0" "v1 = 0" "v3 = 0"
      by (cases cw; simp add: uv dot_quarter)+
    with assms(3,4) show ?thesis by (auto simp add: uv)
  next
    case Z
    with assms(1,2) have "u1 = 0" "u2 = 0" "v1 = 0" "v2 = 0"
      by (cases cw; simp add: uv dot_quarter)+
    with assms(3,4) show ?thesis by (auto simp add: uv)
  qed
qed

lemma length6E:
  assumes "length xs = 6"
  obtains a b c d e f where "xs = [a, b, c, d, e, f]"
proof -
  from assms obtain a b c ys where 1: "xs = a # b # c # ys" and 2: "length ys = 3"
    by (auto simp: length_Suc_conv eval_nat_numeral)
  from 2 obtain d e f where "ys = [d, e, f]" by (rule length3E)
  with 1 show ?thesis using that by simp
qed

lemma cube_ok_turn_changes:
  assumes "cube_ok c"
  shows "rotation_update (rotation ax (quarter cw)) c \<noteq> c"
proof
  let ?R = "rotation ax (quarter cw)"
  assume eq: "rotation_update ?R c = c"
  from assms have "map fst (normal_vectors c) = face_names" by (simp add: cube_ok_def)
  then have "length (map fst (normal_vectors c)) = 6" by (simp add: face_names_def)
  then have "length (normal_vectors c) = 6" by simp
  then obtain a b e d g f where nv: "normal_vectors c = [a, b, e, d, g, f]" by (rule length6E)
  from eq have "normal_vectors (rotation_update ?R c) = normal_vectors c" by simp
  then have fx: "dot ?R (snd a) = snd a" "dot ?R (snd e) = snd e"
    by (simp_all add: rotation_update_def nv case_prod_beta prod_eq_iff)
  from assms have g: "np_inner (snd a) (snd a) = 1" "np_inner (snd e) (snd e) = 1"
    "np_inner (snd a) (snd e) = 0"
    by (simp_all add: cube_ok_def gram_def nv axis_gram_def)
  from fixed_on_axis [OF fx(2) fx(1) g(1) g(2)] g(3) show False by simp
qed

subsection \<open>Invariants of the assembly\<close>

lemma source_cell_slot:
  assumes "p \<in> set slots"
  shows "source_cell ax cw p \<in> set slots"
proof -
  obtain i j k where p: "p = (i, j, k)" by (cases p) auto
  with assms have "i < 3" "j < 3" "k < 3" by (simp_all add: slots_iff)
  then show ?thesis unfolding p by (cases ax; cases cw) (simp_all add: slots_iff)
qed

lemma source_cell_in_layer:
  assumes "p \<in> set slots"
  shows "in_layer ax n (source_cell ax cw p) \<longleftrightarrow> in_layer ax n p"
proof -
  obtain i j k where p: "p = (i, j, k)" by (cases p) auto
  show ?thesis unfolding p by (cases ax; cases cw) simp_all
qed

lemma label_source_cell:
  assumes "p \<in> set slots"
  shows "dot (rotation ax (quarter cw)) (label (source_cell ax cw p)) = label p"
proof -
  obtain i j k where p: "p = (i, j, k)" by (cases p) auto
  with assms have "i < 3" "j < 3" "k < 3" by (simp_all add: slots_iff)
  then have "real (2 - i) = 2 - real i" "real (2 - j) = 2 - real j" "real (2 - k) = 2 - real k"
    by simp_all
  then show ?thesis unfolding p by (cases ax; cases cw) (simp_all add: dot_quarter)
qed

lemma cell_bound:
  assumes "well_formed st" and "p \<in> set slots"
  shows "cell (cells st) p < length (objects st)"
proof -
  from assms(1) have s: "shape3 (cells st)" by (simp add: well_formed_def)
  from assms(2) have "cell (cells st) p \<in> set (map (cell (cells st)) slots)" by simp
  then have "cell (cells st) p \<in> set (concat (concat (cells st)))"
    by (simp only: cells_slots [OF s])
  with assms(1) show ?thesis by (simp add: well_formed_def del: set_concat)
qed

lemma cell_turned_slot:
  assumes "shape3 a" and "n < 3" and "p \<in> set slots"
  shows "cell (turned ax n cw a) p =
    (if in_layer ax n p then cell a (source_cell ax cw p) else cell a p)"
proof -
  obtain i j k where p: "p = (i, j, k)" by (cases p) auto
  with assms(3) have "i < 3" "j < 3" "k < 3" by (simp_all add: slots_iff)
  then show ?thesis unfolding p by (rule cell_turned [OF assms(1,2)])
qed

lemma twist_object:
  assumes "well_formed st" and "n < 3" and "twist ax n cw st = Inr st'" and "p \<in> set slots"
  shows "objects st' ! cell (cells st) p =
    (if in_layer ax n p then rotation_update (rotation ax (quarter cw)) (objects st ! cell (cells st) p)
     else objects st ! cell (cells st) p)"
proof -
  from assms(1) have s: "shape3 (cells st)" and d: "distinct (concat (concat (cells st)))"
    by (simp_all add: well_formed_def)
  from assms(3) twist_eq [OF assms(1,2), of ax cw]
  have o: "objects st' = update_at (set (concat (layer_cells ax n (cells st))))
                           (rotation_update (rotation ax (quarter cw))) (objects st)"
    by auto
  show ?thesis
    unfolding o
    by (simp only: nth_update_at [OF cell_bound [OF assms(1,4)]]
          in_layer_cells_iff [OF s d assms(2,4)])
qed

lemma twist_cells:
  assumes "well_formed st" and "n < 3" and "twist ax n cw st = Inr st'"
  shows "cells st' = turned ax n cw (cells st)"
  using assms(3) twist_eq [OF assms(1,2), of ax cw] by auto

lemma labelled_twist:
  assumes "well_formed st" and "labelled st" and "n < 3" and "twist ax n cw st = Inr st'"
  shows "labelled st'"
  unfolding labelled_def
proof
  fix p assume p: "p \<in> set slots"
  from assms(1) have s: "shape3 (cells st)" by (simp add: well_formed_def)
  have c: "cells st' = turned ax n cw (cells st)" using assms(1,3,4) by (rule twist_cells)
  show "position (objects st' ! cell (cells st') p) = label p"
  proof (cases "in_layer ax n p")
    case True
    let ?q = "source_cell ax cw p"
    have q: "?q \<in> set slots" using p by (rule source_cell_slot)
    have ql: "in_layer ax n ?q" using True source_cell_in_layer [OF p] by simp
    have "cell (cells st') p = cell (cells st) ?q"
      unfolding c using True by (simp add: cell_turned_slot [OF s assms(3) p])
    then have "objects st' ! cell (cells st') p =
        rotation_update (rotation ax (quarter cw)) (objects st ! cell (cells st) ?q)"
      using twist_object [OF assms(1,3,4) q] ql by simp
    moreover have "position (objects st ! cell (cells st) ?q) = label ?q"
      using assms(2) q by (simp add: labelled_def)
    ultimately show ?thesis
      by (simp add: rotation_update_def label_source_cell [OF p])
  next
    case False
    have "cell (cells st') p = cell (cells st) p"
      unfolding c using False by (simp add: cell_turned_slot [OF s assms(3) p])
    then have "objects st' ! cell (cells st') p = objects st ! cell (cells st) p"
      using twist_object [OF assms(1,3,4) p] False by simp
    then show ?thesis using assms(2) p by (simp add: labelled_def)
  qed
qed

lemma cube_ok_twist:
  assumes "well_formed st" and "\<forall>c\<in>set (objects st). cube_ok c" and "n < 3"
    and "twist ax n cw st = Inr st'"
  shows "\<forall>c\<in>set (objects st'). cube_ok c"
proof -
  from assms(4) twist_eq [OF assms(1,3), of ax cw]
  have o: "objects st' = update_at (set (concat (layer_cells ax n (cells st))))
                           (rotation_update (rotation ax (quarter cw))) (objects st)"
    by auto
  show ?thesis unfolding o using assms(2) by (rule set_update_at) (rule cube_ok_rotation_update)
qed

lemma invariant_twist:
  assumes "invariant st" and "n < 3"
  shows "\<exists>st'. twist ax n cw st = Inr st' \<and> invariant st'"
proof -
  from assms(1) have w: "well_formed st" and l: "labelled st"
    and c: "\<forall>c\<in>set (objects st). cube_ok c" by (simp_all add: invariant_def)
  from well_formed_twist [OF w assms(2), of ax cw] obtain st'
    where t: "twist ax n cw st = Inr st'" and w': "well_formed st'" by blast
  have "labelled st'" using w l assms(2) t by (rule labelled_twist)
  moreover have "\<forall>c\<in>set (objects st'). cube_ok c" using w c assms(2) t by (rule cube_ok_twist)
  ultimately show ?thesis using t w' by (simp add: invariant_def)
qed

lemma invariant_twists:
  assumes "invariant st" and "valid_moves ms"
  shows "\<exists>st'. twists ms st = Inr st' \<and> invariant st'"
  using assms
proof (induction ms arbitrary: st)
  case Nil
  then show ?case by simp
next
  case (Cons m ms)
  obtain ax n cw where m: "m = (ax, n, cw)" by (cases m) auto
  with Cons.prems(2) have n: "n < 3" and v: "valid_moves ms" by (simp_all add: valid_moves_def)
  from invariant_twist [OF Cons.prems(1) n, of ax cw] obtain st1
    where t: "twist ax n cw st = Inr st1" and i: "invariant st1" by blast
  from Cons.IH [OF i v] show ?case using t by (simp add: m)
qed

lemma invariant_key_event:
  assumes "invariant st"
  shows "\<exists>st'. key_event key st = Inr st' \<and> invariant st'"
  using key_event_cases [of key st] invariant_twist [OF assms] assms by metis

lemma invariant_key_events:
  assumes "invariant st"
  shows "\<exists>st'. key_events keys st = Inr st' \<and> invariant st'"
  using assms
proof (induction keys arbitrary: st)
  case Nil
  then show ?case by simp
next
  case (Cons key keys)
  from invariant_key_event [OF Cons.prems, of key] obtain st1
    where t: "key_event key st = Inr st1" and i: "invariant st1" by blast
  from Cons.IH [OF i] show ?case using t Cons.prems by simp
qed

lemma labelled_rubik_cube: "labelled rubik_cube"
  by (simp add: labelled_def slots_def product_def cell_def cells_rubik_cube
      objects_rubik_cube Cube_init_def)

lemma invariant_rubik_cube: "invariant rubik_cube"
  by (simp add: invariant_def well_formed_rubik_cube labelled_rubik_cube
      objects_rubik_cube cube_ok_init)

subsection \<open>Assemblies reached by twists\<close>

lemma twist_Inr_index:
  assumes "twist ax n cw st = Inr st'"
  shows "n < 3"
  using assms by (cases ax) (auto simp: twist_def rotate_face_def split: if_splits)

lemma twists_Inr_valid:
  assumes "twists ms st = Inr st'"
  shows "valid_moves ms"
  using assms
proof (induction ms arbitrary: st)
  case Nil
  show ?case by (simp add: valid_moves_def)
next
  case (Cons m ms)
  obtain ax n cw where m: "m = (ax, n, cw)" by (cases m) auto
  from Cons.prems obtain st1 where t: "twist ax n cw st = Inr st1" and r: "twists ms st1 = Inr st'"
    by (auto simp: m split: sum.splits)
  from twist_Inr_index [OF t] Cons.IH [OF r] show ?case by (simp add: m valid_moves_def)
qed

lemma reachable_invariant:
  assumes "twists ms rubik_cube = Inr st"
  shows "invariant st"
  using invariant_twists [OF invariant_rubik_cube twists_Inr_valid [OF assms]] assms by auto

lemma twists_front_turned: "twists [(Z, 0, True)] rubik_cube = Inr front_turned"
  by (simp add: twist_eq [OF well_formed_rubik_cube] layer_cells_def cells_rubik_cube
      quarter_def front_turned_def)

lemma cells_onto:
  assumes "well_formed st" and "m < 27"
  shows "\<exists>p\<in>set slots. cell (cells st) p = m"
proof -
  let ?xs = "concat (concat (cells st))"
  from assms(1) have s: "shape3 (cells st)" and d: "distinct ?xs"
    and b: "\<forall>n\<in>set ?xs. n < 27" by (simp_all add: well_formed_def del: set_concat)
  have "card (set ?xs) = length ?xs" using d by (rule distinct_card)
  then have c: "card (set ?xs) = card {..<27 :: nat}" by (simp only: length_cells [OF s] card_lessThan)
  have "set ?xs \<subseteq> {..<27}" using b by auto
  then have "set ?xs = {..<27}" using c by (intro card_subset_eq) simp_all
  with assms(2) have "m \<in> set ?xs" by simp
  then have "m \<in> set (map (cell (cells st)) slots)" by (simp only: cells_slots [OF s])
  then show ?thesis by auto
qed

subsection \<open>Four twists of a layer\<close>

text \<open>
  C3: for every axis and every layer index 0, 1 or 2, four consecutive clockwise
  twists of that layer restore the assembly: the array of references and every field
  of each of the 27 cubes (position, normal vectors, corner points, colours) are what
  they were before the first twist. In the exact arithmetic of the real numbers the
  restored values are equal to the old ones, which is within every tolerance.
\<close>

theorem four_clockwise_twists_restore:
  assumes "well_formed st" and "n < 3"
  shows "twists [(ax, n, True), (ax, n, True), (ax, n, True), (ax, n, True)] st = Inr st"
  using assms by (rule twist_four)

theorem four_clockwise_twists_restore_witness:
  "well_formed rubik_cube \<and> (0 :: nat) < 3 \<and>
   twists [(Z, 0, True), (Z, 0, True), (Z, 0, True), (Z, 0, True)] rubik_cube = Inr rubik_cube"
proof -
  have n: "(0 :: nat) < 3" by simp
  from four_clockwise_twists_restore [OF well_formed_rubik_cube n, of Z]
    well_formed_rubik_cube n
  show ?thesis by simp
qed

subsection \<open>The layer and the rest of the assembly\<close>

lemma length_layer_slots:
  assumes "n < 3"
  shows "length (filter (in_layer ax n) slots) = 9"
    and "length (filter (\<lambda>p. \<not> in_layer ax n p) slots) = 18"
  using assms by (rule less3E; cases ax; simp add: slots_def product_def)+

lemma source_cell_fixed:
  assumes "p \<in> set slots" and "in_layer ax n p"
  shows "source_cell ax cw p = p \<longleftrightarrow> p = layer_centre ax n"
proof -
  obtain i j k where p: "p = (i, j, k)" by (cases p) auto
  with assms(1) have "i < 3" "j < 3" "k < 3" by (simp_all add: slots_iff)
  then show ?thesis using assms(2) unfolding p by (cases ax; cases cw) auto
qed

lemma changed_objects:
  assumes "invariant st" and "n < 3" and "twist ax n cw st = Inr st'"
  shows "{m. m < 27 \<and> objects st' ! m \<noteq> objects st ! m} = set (concat (layer_cells ax n (cells st)))"
proof -
  from assms(1) have w: "well_formed st" and ok: "\<forall>c\<in>set (objects st). cube_ok c"
    by (simp_all add: invariant_def)
  from w have s: "shape3 (cells st)" and d: "distinct (concat (concat (cells st)))"
    and l: "length (objects st) = 27"
    by (simp_all add: well_formed_def)
  have "objects st' ! m \<noteq> objects st ! m \<longleftrightarrow> m \<in> set (concat (layer_cells ax n (cells st)))"
    if "m < 27" for m
  proof -
    from cells_onto [OF w that] obtain p where p: "p \<in> set slots" and m: "m = cell (cells st) p"
      by blast
    have "cube_ok (objects st ! m)" using ok that l by simp
    then have "rotation_update (rotation ax (quarter cw)) (objects st ! m) \<noteq> objects st ! m"
      by (rule cube_ok_turn_changes)
    then show ?thesis
      using twist_object [OF w assms(2,3) p] in_layer_cells_iff [OF s d assms(2) p, of ax]
      by (simp add: m)
  qed
  moreover have "m < 27" if "m \<in> set (concat (layer_cells ax n (cells st)))" for m
    using that layer_cells_subset [OF s assms(2), of ax] w
    by (auto simp: well_formed_def simp del: set_concat)
  ultimately show ?thesis by blast
qed

text \<open>
  C5: a twist of a layer, in an assembly reached by twists, changes exactly the nine
  cubes of that layer. The 18 slots outside the layer keep their cube, and that cube
  is unchanged in every field. Each of the nine slots of the layer receives the cube
  of the slot that the quarter turn of the slice maps to it (only the slot in the
  middle of the layer is mapped to itself), and each of the nine cubes is replaced by
  its rotation, which differs from it. Of the 27 objects exactly nine differ
  afterwards.
\<close>

theorem twist_changes_the_layer_only:
  assumes "twists ms rubik_cube = Inr st" and "n < 3"
  shows "\<exists>st'. twist ax n cw st = Inr st' \<and>
     (\<forall>p\<in>set slots. \<not> in_layer ax n p \<longrightarrow>
        cell (cells st') p = cell (cells st) p \<and>
        objects st' ! cell (cells st) p = objects st ! cell (cells st) p) \<and>
     (\<forall>p\<in>set slots. in_layer ax n p \<longrightarrow>
        cell (cells st') p = cell (cells st) (source_cell ax cw p) \<and>
        (source_cell ax cw p = p \<longleftrightarrow> p = layer_centre ax n) \<and>
        objects st' ! cell (cells st) p =
          rotation_update (rotation ax (quarter cw)) (objects st ! cell (cells st) p) \<and>
        objects st' ! cell (cells st) p \<noteq> objects st ! cell (cells st) p) \<and>
     length (filter (in_layer ax n) slots) = 9 \<and>
     length (filter (\<lambda>p. \<not> in_layer ax n p) slots) = 18 \<and>
     card {m. m < 27 \<and> objects st' ! m \<noteq> objects st ! m} = 9"
proof -
  from assms(1) have i: "invariant st" by (rule reachable_invariant)
  then have w: "well_formed st" and ok: "\<forall>c\<in>set (objects st). cube_ok c"
    by (simp_all add: invariant_def)
  from w have s: "shape3 (cells st)" and d: "distinct (concat (concat (cells st)))"
    and l: "length (objects st) = 27"
    by (simp_all add: well_formed_def)
  from invariant_twist [OF i assms(2), of ax cw] obtain st'
    where t: "twist ax n cw st = Inr st'" by blast
  have c: "cells st' = turned ax n cw (cells st)" using w assms(2) t by (rule twist_cells)
  have 1: "cell (cells st') p = cell (cells st) p \<and>
        objects st' ! cell (cells st) p = objects st ! cell (cells st) p"
    if "p \<in> set slots" and "\<not> in_layer ax n p" for p
    using that twist_object [OF w assms(2) t that(1)]
    by (simp add: c cell_turned_slot [OF s assms(2) that(1)])
  have 2: "cell (cells st') p = cell (cells st) (source_cell ax cw p) \<and>
        (source_cell ax cw p = p \<longleftrightarrow> p = layer_centre ax n) \<and>
        objects st' ! cell (cells st) p =
          rotation_update (rotation ax (quarter cw)) (objects st ! cell (cells st) p) \<and>
        objects st' ! cell (cells st) p \<noteq> objects st ! cell (cells st) p"
    if "p \<in> set slots" and "in_layer ax n p" for p
  proof -
    have "cube_ok (objects st ! cell (cells st) p)"
      using ok cell_bound [OF w that(1)] by simp
    then have "rotation_update (rotation ax (quarter cw)) (objects st ! cell (cells st) p)
        \<noteq> objects st ! cell (cells st) p"
      by (rule cube_ok_turn_changes)
    then show ?thesis
      using that twist_object [OF w assms(2) t that(1)] source_cell_fixed [OF that, of cw]
      by (simp add: c cell_turned_slot [OF s assms(2) that(1)])
  qed
  have "card {m. m < 27 \<and> objects st' ! m \<noteq> objects st ! m} =
        card (set (concat (layer_cells ax n (cells st))))"
    by (simp only: changed_objects [OF i assms(2) t])
  also have "\<dots> = length (concat (layer_cells ax n (cells st)))"
    using distinct_layer_cells [OF s d assms(2)] by (rule distinct_card)
  also have "\<dots> = 9"
    by (simp add: layer_cells_slots [OF s assms(2)] layer_slots_def length_layer_slots [OF assms(2)])
  finally have 3: "card {m. m < 27 \<and> objects st' ! m \<noteq> objects st ! m} = 9" .
  from 1 have u: "\<forall>p\<in>set slots. \<not> in_layer ax n p \<longrightarrow>
        cell (cells st') p = cell (cells st) p \<and>
        objects st' ! cell (cells st) p = objects st ! cell (cells st) p" by blast
  from 2 have v: "\<forall>p\<in>set slots. in_layer ax n p \<longrightarrow>
        cell (cells st') p = cell (cells st) (source_cell ax cw p) \<and>
        (source_cell ax cw p = p \<longleftrightarrow> p = layer_centre ax n) \<and>
        objects st' ! cell (cells st) p =
          rotation_update (rotation ax (quarter cw)) (objects st ! cell (cells st) p) \<and>
        objects st' ! cell (cells st) p \<noteq> objects st ! cell (cells st) p" by blast
  show ?thesis
  proof (intro exI [of _ st'] conjI)
    show "twist ax n cw st = Inr st'" by (rule t)
    show "\<forall>p\<in>set slots. \<not> in_layer ax n p \<longrightarrow>
        cell (cells st') p = cell (cells st) p \<and>
        objects st' ! cell (cells st) p = objects st ! cell (cells st) p" by (rule u)
    show "\<forall>p\<in>set slots. in_layer ax n p \<longrightarrow>
        cell (cells st') p = cell (cells st) (source_cell ax cw p) \<and>
        (source_cell ax cw p = p \<longleftrightarrow> p = layer_centre ax n) \<and>
        objects st' ! cell (cells st) p =
          rotation_update (rotation ax (quarter cw)) (objects st ! cell (cells st) p) \<and>
        objects st' ! cell (cells st) p \<noteq> objects st ! cell (cells st) p" by (rule v)
    show "length (filter (in_layer ax n) slots) = 9"
      by (rule length_layer_slots [OF assms(2)])
    show "length (filter (\<lambda>p. \<not> in_layer ax n p) slots) = 18"
      by (rule length_layer_slots [OF assms(2)])
    show "card {m. m < 27 \<and> objects st' ! m \<noteq> objects st ! m} = 9" by (rule 3)
  qed
qed

theorem twist_changes_the_layer_only_witness:
  "twists [] rubik_cube = Inr rubik_cube \<and> (0 :: nat) < 3 \<and>
   (\<exists>st'. twist Z 0 True rubik_cube = Inr st' \<and>
      card {m. m < 27 \<and> objects st' ! m \<noteq> objects rubik_cube ! m} = 9)"
proof -
  have r: "twists [] rubik_cube = Inr rubik_cube" by simp
  have n: "(0 :: nat) < 3" by simp
  from twist_changes_the_layer_only [OF r n, of Z True] r n show ?thesis by blast
qed

subsection \<open>The colour of the dominant face\<close>

lemma hd_sort_key_first_min:
  "xs \<noteq> [] \<Longrightarrow>
   \<exists>i<length xs. hd (sort_key f xs) = xs ! i \<and>
     (\<forall>j<length xs. f (xs ! i) \<le> f (xs ! j)) \<and>
     (\<forall>j<i. f (xs ! i) < f (xs ! j))"
proof (induction xs)
  case Nil
  then show ?case by simp
next
  case (Cons x xs)
  show ?case
  proof (cases "xs = []")
    case True
    then show ?thesis by simp
  next
    case False
    from Cons.IH [OF False] obtain i where i: "i < length xs"
      and hd: "hd (sort_key f xs) = xs ! i"
      and le: "\<forall>j<length xs. f (xs ! i) \<le> f (xs ! j)"
      and lt: "\<forall>j<i. f (xs ! i) < f (xs ! j)" by blast
    have "length (sort_key f xs) = length xs" by simp
    with False obtain y ys where ys: "sort_key f xs = y # ys"
      by (cases "sort_key f xs") auto
    with hd have y: "y = xs ! i" by simp
    show ?thesis
    proof (cases "f x \<le> f y")
      case True
      have "hd (sort_key f (x # xs)) = (x # xs) ! 0" using True ys by simp
      moreover have "\<forall>j<length (x # xs). f ((x # xs) ! 0) \<le> f ((x # xs) ! j)"
        using True le y by (auto simp: nth_Cons split: nat.splits)
      ultimately show ?thesis by (intro exI [of _ 0]) simp
    next
      case F: False
      have "hd (sort_key f (x # xs)) = (x # xs) ! Suc i" using F ys y by simp
      moreover have "\<forall>j<length (x # xs). f ((x # xs) ! Suc i) \<le> f ((x # xs) ! j)"
        using F le y by (auto simp: nth_Cons split: nat.splits)
      moreover have "\<forall>j<Suc i. f ((x # xs) ! Suc i) < f ((x # xs) ! j)"
        using F lt y by (auto simp: nth_Cons split: nat.splits)
      ultimately show ?thesis using i by (intro exI [of _ "Suc i"]) simp
    qed
  qed
qed

lemma get_face_colour_first_max:
  assumes "normal_vectors c \<noteq> []"
  shows "\<exists>i<length (normal_vectors c).
     get_face_colour c d =
       (case map_of (colours c) (fst (normal_vectors c ! i)) of
          None \<Rightarrow> Inl KeyError | Some colour \<Rightarrow> Inr colour) \<and>
     (\<forall>j<length (normal_vectors c).
        np_inner d (snd (normal_vectors c ! j)) \<le> np_inner d (snd (normal_vectors c ! i))) \<and>
     (\<forall>j<i. np_inner d (snd (normal_vectors c ! j)) < np_inner d (snd (normal_vectors c ! i)))"
proof -
  define nv where "nv = normal_vectors c"
  define fl where "fl = map (\<lambda>(face, normal). (face, np_inner d normal)) nv"
  define key where "key = (\<lambda>x :: string \<times> real. - snd x)"
  have ne: "fl \<noteq> []" using assms by (simp add: fl_def nv_def)
  from hd_sort_key_first_min [OF ne, of key] obtain i where
    i: "i < length fl" and hd: "hd (sort_key key fl) = fl ! i"
    and le: "\<forall>j<length fl. key (fl ! i) \<le> key (fl ! j)"
    and lt: "\<forall>j<i. key (fl ! i) < key (fl ! j)" by blast
  have len: "length fl = length nv" by (simp add: fl_def)
  have nth: "fl ! j = (fst (nv ! j), np_inner d (snd (nv ! j)))" if "j < length nv" for j
    using that by (simp add: fl_def case_prod_beta)
  have "length (sort_key key fl) = length fl" by simp
  with ne obtain b bs where b: "sort_key key fl = b # bs"
    by (cases "sort_key key fl") auto
  with hd have "b = fl ! i" by simp
  then have fb: "fst b = fst (nv ! i)" using i len nth by simp
  have "get_face_colour c d =
       (case sorted_reverse snd fl of [] \<Rightarrow> Inl IndexError
        | best # _ \<Rightarrow> (case map_of (colours c) (fst best) of
            None \<Rightarrow> Inl KeyError | Some colour \<Rightarrow> Inr colour))"
    by (simp add: get_face_colour_def fl_def nv_def)
  also have "sorted_reverse snd fl = b # bs"
    using b by (simp add: sorted_reverse_def key_def)
  finally have g: "get_face_colour c d =
       (case map_of (colours c) (fst (nv ! i)) of
          None \<Rightarrow> Inl KeyError | Some colour \<Rightarrow> Inr colour)"
    using fb by simp
  have le': "np_inner d (snd (nv ! j)) \<le> np_inner d (snd (nv ! i))" if "j < length nv" for j
  proof -
    from le that len have "key (fl ! i) \<le> key (fl ! j)" by simp
    then show ?thesis using nth [OF that] nth [of i] i len by (simp add: key_def)
  qed
  have lt': "np_inner d (snd (nv ! j)) < np_inner d (snd (nv ! i))" if "j < i" for j
  proof -
    from lt that have "key (fl ! i) < key (fl ! j)" by simp
    moreover have "j < length nv" using that i len by simp
    ultimately show ?thesis using nth [of j] nth [of i] i len by (simp add: key_def)
  qed
  have "i < length nv \<and>
     get_face_colour c d =
       (case map_of (colours c) (fst (nv ! i)) of
          None \<Rightarrow> Inl KeyError | Some colour \<Rightarrow> Inr colour) \<and>
     (\<forall>j<length nv. np_inner d (snd (nv ! j)) \<le> np_inner d (snd (nv ! i))) \<and>
     (\<forall>j<i. np_inner d (snd (nv ! j)) < np_inner d (snd (nv ! i)))"
    using i len g le' lt' by simp
  then show ?thesis unfolding nv_def [symmetric] by (rule exI)
qed

lemma get_face_colour_fresh:
  "get_face_colour (Cube_init (1, 1, 1)) (0, 0, 1) = Inr COLOUR_RED"
  by (simp add: get_face_colour_def Cube_init_def sorted_reverse_def)

lemma get_face_colour_turned:
  "get_face_colour (rotate_y (Cube_init (1, 1, 1)) (pi / 2)) (0, 0, 1) = Inr COLOUR_WHITE"
  by (simp add: get_face_colour_def Cube_init_def sorted_reverse_def rotate_y_def
      rotation_update_def Ry_def)

text \<open>
  C6: \<open>get_face_colour\<close> returns the colour of the face whose normal has the largest
  inner product with the given direction, the first such entry of the dictionary of
  normals when several are maximal; a new cube at (1, 1, 1) asked for direction
  (0, 0, 1) shows the front colour, red, and after \<open>rotate_y\<close> by a quarter turn it
  shows the colour of its right face, white.
\<close>

theorem get_face_colour_dominant:
  "(normal_vectors c \<noteq> [] \<longrightarrow>
     (\<exists>i<length (normal_vectors c).
        get_face_colour c d =
          (case map_of (colours c) (fst (normal_vectors c ! i)) of
             None \<Rightarrow> Inl KeyError | Some colour \<Rightarrow> Inr colour) \<and>
        (\<forall>j<length (normal_vectors c).
           np_inner d (snd (normal_vectors c ! j)) \<le> np_inner d (snd (normal_vectors c ! i))) \<and>
        (\<forall>j<i. np_inner d (snd (normal_vectors c ! j)) < np_inner d (snd (normal_vectors c ! i))))) \<and>
   get_face_colour (Cube_init (1, 1, 1)) (0, 0, 1) = Inr COLOUR_RED \<and>
   map_of (colours (Cube_init (1, 1, 1))) ''front'' = Some COLOUR_RED \<and>
   get_face_colour (rotate_y (Cube_init (1, 1, 1)) (pi / 2)) (0, 0, 1) = Inr COLOUR_WHITE \<and>
   map_of (colours (Cube_init (1, 1, 1))) ''right'' = Some COLOUR_WHITE"
  using get_face_colour_first_max [of c d] get_face_colour_fresh get_face_colour_turned
  by (simp add: Cube_init_def)

theorem get_face_colour_dominant_witness:
  "normal_vectors (Cube_init (1, 1, 1)) \<noteq> [] \<and>
   (\<exists>i<length (normal_vectors (Cube_init (1, 1, 1))).
      get_face_colour (Cube_init (1, 1, 1)) (0, 0, 1) =
        (case map_of (colours (Cube_init (1, 1, 1))) (fst (normal_vectors (Cube_init (1, 1, 1)) ! i)) of
           None \<Rightarrow> Inl KeyError | Some colour \<Rightarrow> Inr colour) \<and>
      (\<forall>j<length (normal_vectors (Cube_init (1, 1, 1))).
         np_inner (0, 0, 1) (snd (normal_vectors (Cube_init (1, 1, 1)) ! j))
           \<le> np_inner (0, 0, 1) (snd (normal_vectors (Cube_init (1, 1, 1)) ! i))) \<and>
      (\<forall>j<i. np_inner (0, 0, 1) (snd (normal_vectors (Cube_init (1, 1, 1)) ! j))
           < np_inner (0, 0, 1) (snd (normal_vectors (Cube_init (1, 1, 1)) ! i))))"
proof -
  have ne: "normal_vectors (Cube_init (1, 1, 1)) \<noteq> []" by (simp add: Cube_init_def)
  from get_face_colour_dominant [of "Cube_init (1, 1, 1)" "(0, 0, 1)"] ne
  show ?thesis by blast
qed

subsection \<open>The face normals\<close>

lemma front_turned_first:
  "normal_vectors (objects front_turned ! 0) =
     [(''front'', (0, 0, 1)), (''back'', (0, 0, - 1)), (''left'', (0, 1, 0)),
      (''right'', (0, - 1, 0)), (''top'', (1, 0, 0)), (''bottom'', (- 1, 0, 0))]"
  by (simp add: front_turned_def update_at_def objects_rubik_cube Cube_init_def
      rotation_update_def Rz_def)

text \<open>
  C7, as stated: after every sequence of twists the six face normals of every cube
  are pairwise orthogonal unit vectors. Six vectors of the space cannot be pairwise
  orthogonal: in the initial assembly (the empty sequence of twists) and after one
  clockwise twist of the front layer the normals of the first cube are not, since
  front and back are opposite.
\<close>

theorem normals_not_pairwise_orthogonal:
  "\<not> pairwise_orthogonal_units (map snd (normal_vectors (objects rubik_cube ! 0))) \<and>
   \<not> pairwise_orthogonal_units (map snd (normal_vectors (objects front_turned ! 0)))"
proof
  show "\<not> pairwise_orthogonal_units (map snd (normal_vectors (objects rubik_cube ! 0)))"
  proof
    let ?ns = "map snd (normal_vectors (objects rubik_cube ! 0))"
    assume "pairwise_orthogonal_units ?ns"
    then have o: "\<forall>i<length ?ns. \<forall>j<length ?ns. i \<noteq> j \<longrightarrow> np_inner (?ns ! i) (?ns ! j) = 0"
      unfolding pairwise_orthogonal_units_def by (rule conjunct2)
    from o [rule_format, of 0 1] show False
      by (simp add: objects_rubik_cube Cube_init_def)
  qed
  show "\<not> pairwise_orthogonal_units (map snd (normal_vectors (objects front_turned ! 0)))"
  proof
    let ?ns = "map snd (normal_vectors (objects front_turned ! 0))"
    assume "pairwise_orthogonal_units ?ns"
    then have o: "\<forall>i<length ?ns. \<forall>j<length ?ns. i \<noteq> j \<longrightarrow> np_inner (?ns ! i) (?ns ! j) = 0"
      unfolding pairwise_orthogonal_units_def by (rule conjunct2)
    from o [rule_format, of 0 1] show False
      by (simp add: front_turned_first)
  qed
qed

text \<open>
  C7, amended: after every sequence of twists, by layers or by keys, the six face
  normals of every cube still carry the six face names in their order and have the
  inner products of axis-aligned outward normals: each is a unit vector, the normals
  of two opposite faces (front and back, left and right, top and bottom) have inner
  product \<open>- 1\<close>, and every other pair is orthogonal.
\<close>

theorem normals_axis_aligned:
  assumes "twists ms rubik_cube = Inr st"
  shows "(\<forall>c\<in>set (objects st). map fst (normal_vectors c) = face_names \<and> gram c = axis_gram) \<and>
         (\<exists>st'. key_events keys rubik_cube = Inr st' \<and>
            (\<forall>c\<in>set (objects st'). map fst (normal_vectors c) = face_names \<and> gram c = axis_gram))"
proof -
  from assms have "invariant st" by (rule reachable_invariant)
  then have 1: "\<forall>c\<in>set (objects st). map fst (normal_vectors c) = face_names \<and> gram c = axis_gram"
    by (simp add: invariant_def cube_ok_def)
  from invariant_key_events [OF invariant_rubik_cube, of keys]
  have 2: "\<exists>st'. key_events keys rubik_cube = Inr st' \<and>
            (\<forall>c\<in>set (objects st'). map fst (normal_vectors c) = face_names \<and> gram c = axis_gram)"
    by (auto simp: invariant_def cube_ok_def)
  from 1 2 show ?thesis by (rule conjI)
qed

theorem normals_axis_aligned_witness:
  "twists [(Z, 0, True)] rubik_cube = Inr front_turned \<and>
   list_all (\<lambda>c. map fst (normal_vectors c) = face_names \<and> gram c = axis_gram)
     (objects front_turned)"
  using normals_axis_aligned [OF twists_front_turned] twists_front_turned
  by (simp add: list_all_iff)

subsection \<open>Axes and directions of the twists\<close>

lemma key_event_rotate_face:
  "key_event rotate_front_ccw st = rotate_face (View2 0) ''z'' False st"
  "key_event rotate_front_cw st = rotate_face (View2 0) ''z'' True st"
  "key_event rotate_middle_ccw st = rotate_face (View2 1) ''z'' False st"
  "key_event rotate_middle_cw st = rotate_face (View2 1) ''z'' True st"
  "key_event rotate_back_ccw st = rotate_face (View2 2) ''z'' False st"
  "key_event rotate_back_cw st = rotate_face (View2 2) ''z'' True st"
  "key_event rotate_top_ccw st = rotate_face (View1 0) ''y'' False st"
  "key_event rotate_top_cw st = rotate_face (View1 0) ''y'' True st"
  "key_event rotate_bottom_ccw st = rotate_face (View1 2) ''y'' False st"
  "key_event rotate_bottom_cw st = rotate_face (View1 2) ''y'' True st"
  "key_event rotate_left_ccw st = rotate_face (View0 0) ''x'' False st"
  "key_event rotate_left_cw st = rotate_face (View0 0) ''x'' True st"
  "key_event rotate_right_ccw st = rotate_face (View0 2) ''x'' False st"
  "key_event rotate_right_cw st = rotate_face (View0 2) ''x'' True st"
  by (simp_all add: key_event_def key_codes)

lemma turns_eq:
  "turns ax cw = - (if ax = Z then - (if cw then 1 else - 1) else (if cw then 1 else - 1))"
  by (simp add: turns_def)

lemma twist_effect:
  assumes "well_formed st" and "n < 3"
  shows "\<exists>st'. rotate_face (layer ax n) (axis_name ax) cw st = Inr st' \<and>
     (\<forall>p\<in>set slots. in_layer ax n p \<longrightarrow>
        objects st' ! cell (cells st) p =
          rotation_update (rotation ax (of_int (if cw then 1 else - 1) * pi / 2))
            (objects st ! cell (cells st) p)) \<and>
     layer_cells ax n (cells st') =
       rot90 (layer_cells ax n (cells st))
         (- (if ax = Z then - (if cw then 1 else - 1) else (if cw then 1 else - 1))) \<and>
     (\<forall>p\<in>set slots. in_layer ax n p \<longrightarrow>
        cell (cells st') p = cell (cells st) (source_cell ax cw p))"
proof -
  from assms(1) have s: "shape3 (cells st)" by (simp add: well_formed_def)
  from well_formed_twist [OF assms, of ax cw] obtain st'
    where t: "twist ax n cw st = Inr st'" by blast
  have c: "cells st' = turned ax n cw (cells st)" using assms t by (rule twist_cells)
  show ?thesis
  proof (intro exI [of _ st'] conjI)
    show "rotate_face (layer ax n) (axis_name ax) cw st = Inr st'"
      using t by (simp add: twist_def)
    show "\<forall>p\<in>set slots. in_layer ax n p \<longrightarrow>
        objects st' ! cell (cells st) p =
          rotation_update (rotation ax (of_int (if cw then 1 else - 1) * pi / 2))
            (objects st ! cell (cells st) p)"
      using twist_object [OF assms t] by (simp add: quarter_def)
    show "layer_cells ax n (cells st') =
       rot90 (layer_cells ax n (cells st))
         (- (if ax = Z then - (if cw then 1 else - 1) else (if cw then 1 else - 1)))"
      unfolding c turns_eq [symmetric] using s assms(2) by (rule layer_cells_turned)
    show "\<forall>p\<in>set slots. in_layer ax n p \<longrightarrow>
        cell (cells st') p = cell (cells st) (source_cell ax cw p)"
      unfolding c using cell_turned_slot [OF s assms(2)] by simp
  qed
qed

text \<open>
  C8: the keys for the front, middle and back layer call \<open>rotate_face\<close> on the views
  \<open>[:, :, 0]\<close>, \<open>[:, :, 1]\<close>, \<open>[:, :, 2]\<close> with axis z, the keys for top and bottom on
  \<open>[:, 0]\<close>, \<open>[:, 2]\<close> with axis y, the keys for left and right on \<open>[0]\<close>, \<open>[2]\<close>
  with axis x, clockwise for the upper-case key. On a well-formed assembly the twist
  rotates every cube of the layer about that axis by \<open>direction * pi / 2\<close>, where
  \<open>direction\<close> is 1 for clockwise and - 1 otherwise, and rewrites the slice of the
  layer with \<open>np.rot90(slice, - d)\<close>, where \<open>d\<close> is \<open>- direction\<close> for the z axis and
  \<open>direction\<close> for the other two; slot by slot this is the permutation
  \<open>source_cell\<close>.
\<close>

theorem twist_axes_and_directions:
  "key_event rotate_front_ccw st = rotate_face (View2 0) ''z'' False st \<and>
   key_event rotate_front_cw st = rotate_face (View2 0) ''z'' True st \<and>
   key_event rotate_middle_ccw st = rotate_face (View2 1) ''z'' False st \<and>
   key_event rotate_middle_cw st = rotate_face (View2 1) ''z'' True st \<and>
   key_event rotate_back_ccw st = rotate_face (View2 2) ''z'' False st \<and>
   key_event rotate_back_cw st = rotate_face (View2 2) ''z'' True st \<and>
   key_event rotate_top_ccw st = rotate_face (View1 0) ''y'' False st \<and>
   key_event rotate_top_cw st = rotate_face (View1 0) ''y'' True st \<and>
   key_event rotate_bottom_ccw st = rotate_face (View1 2) ''y'' False st \<and>
   key_event rotate_bottom_cw st = rotate_face (View1 2) ''y'' True st \<and>
   key_event rotate_left_ccw st = rotate_face (View0 0) ''x'' False st \<and>
   key_event rotate_left_cw st = rotate_face (View0 0) ''x'' True st \<and>
   key_event rotate_right_ccw st = rotate_face (View0 2) ''x'' False st \<and>
   key_event rotate_right_cw st = rotate_face (View0 2) ''x'' True st \<and>
   (well_formed st \<and> n < 3 \<longrightarrow>
      (\<exists>st'. rotate_face (layer ax n) (axis_name ax) cw st = Inr st' \<and>
         (\<forall>p\<in>set slots. in_layer ax n p \<longrightarrow>
            objects st' ! cell (cells st) p =
              rotation_update (rotation ax (of_int (if cw then 1 else - 1) * pi / 2))
                (objects st ! cell (cells st) p)) \<and>
         layer_cells ax n (cells st') =
           rot90 (layer_cells ax n (cells st))
             (- (if ax = Z then - (if cw then 1 else - 1) else (if cw then 1 else - 1))) \<and>
         (\<forall>p\<in>set slots. in_layer ax n p \<longrightarrow>
            cell (cells st') p = cell (cells st) (source_cell ax cw p))))"
proof (intro conjI impI)
  assume "well_formed st \<and> n < 3"
  then have "well_formed st" and "n < 3" by simp_all
  then show "\<exists>st'. rotate_face (layer ax n) (axis_name ax) cw st = Inr st' \<and>
         (\<forall>p\<in>set slots. in_layer ax n p \<longrightarrow>
            objects st' ! cell (cells st) p =
              rotation_update (rotation ax (of_int (if cw then 1 else - 1) * pi / 2))
                (objects st ! cell (cells st) p)) \<and>
         layer_cells ax n (cells st') =
           rot90 (layer_cells ax n (cells st))
             (- (if ax = Z then - (if cw then 1 else - 1) else (if cw then 1 else - 1))) \<and>
         (\<forall>p\<in>set slots. in_layer ax n p \<longrightarrow>
            cell (cells st') p = cell (cells st) (source_cell ax cw p))"
    by (rule twist_effect)
qed (rule key_event_rotate_face)+

theorem twist_axes_and_directions_witness:
  "well_formed rubik_cube \<and> (0 :: nat) < 3 \<and>
   (\<exists>st'. rotate_face (layer Z 0) (axis_name Z) True rubik_cube = Inr st' \<and>
      layer_cells Z 0 (cells st') = [[6, 15, 24], [3, 12, 21], [0, 9, 18]] \<and>
      cell (cells st') (0, 0, 0) = cell (cells rubik_cube) (0, 2, 0) \<and>
      objects st' ! 0 = rotation_update (Rz (pi / 2)) (objects rubik_cube ! 0))"
proof -
  have w: "well_formed rubik_cube"
    by (simp add: well_formed_def cells_rubik_cube objects_rubik_cube shape3_def shape2_def)
  have n: "(0 :: nat) < 3" by simp
  have p: "(0, 0, 0) \<in> set slots" by (simp add: slots_iff)
  from twist_axes_and_directions [of rubik_cube 0 Z True] w n obtain st' where
    a: "rotate_face (layer Z 0) (axis_name Z) True rubik_cube = Inr st'"
    and b: "\<forall>p\<in>set slots. in_layer Z 0 p \<longrightarrow>
            objects st' ! cell (cells rubik_cube) p =
              rotation_update (rotation Z (of_int (if True then 1 else - 1) * pi / 2))
                (objects rubik_cube ! cell (cells rubik_cube) p)"
    and c: "layer_cells Z 0 (cells st') =
           rot90 (layer_cells Z 0 (cells rubik_cube))
             (- (if Z = Z then - (if True then 1 else - 1) else (if True then 1 else - 1)))"
    and d: "\<forall>p\<in>set slots. in_layer Z 0 p \<longrightarrow>
            cell (cells st') p = cell (cells rubik_cube) (source_cell Z True p)"
    by blast
  from c have c': "layer_cells Z 0 (cells st') = [[6, 15, 24], [3, 12, 21], [0, 9, 18]]"
    by (simp add: layer_cells_def cells_rubik_cube rot90_def)
  from d p have d': "cell (cells st') (0, 0, 0) = cell (cells rubik_cube) (0, 2, 0)"
    by force
  from b p have "objects st' ! cell (cells rubik_cube) (0, 0, 0) =
      rotation_update (Rz (pi / 2)) (objects rubik_cube ! cell (cells rubik_cube) (0, 0, 0))"
    by force
  then have b': "objects st' ! 0 = rotation_update (Rz (pi / 2)) (objects rubik_cube ! 0)"
    by (simp add: cell_def cells_rubik_cube)
  from w n a c' d' b' show ?thesis by blast
qed

subsection \<open>The colours of a cube\<close>

text \<open>
  C9: a rotation never modifies the colours of a cube. \<open>__rotation_update__\<close> and the
  three rotation methods leave the dictionary of colours as it is, so does every
  sequence of rotations; a new cube has front = red, back = magenta, left = yellow,
  right = white, top = green, bottom = blue; and in every assembly that twists reach
  from the initial one each cube still has exactly this table.
\<close>

theorem colours_fixed:
  "colours (rotation_update R c) = colours c \<and>
   colours (rotate_x c theta) = colours c \<and>
   colours (rotate_y c theta) = colours c \<and>
   colours (rotate_z c theta) = colours c \<and>
   colours (fold rotation_update Rs c) = colours c \<and>
   colours (Cube_init pos) = colour_table \<and>
   map_of colour_table ''front'' = Some COLOUR_RED \<and>
   map_of colour_table ''back'' = Some COLOUR_MAGENTA \<and>
   map_of colour_table ''left'' = Some COLOUR_YELLOW \<and>
   map_of colour_table ''right'' = Some COLOUR_WHITE \<and>
   map_of colour_table ''top'' = Some COLOUR_GREEN \<and>
   map_of colour_table ''bottom'' = Some COLOUR_BLUE \<and>
   (twists ms rubik_cube = Inr st \<longrightarrow> (\<forall>c\<in>set (objects st). colours c = colour_table))"
proof -
  have f: "colours (fold rotation_update Rs c) = colours c"
    by (induction Rs arbitrary: c) simp_all
  have r: "twists ms rubik_cube = Inr st \<longrightarrow> (\<forall>c\<in>set (objects st). colours c = colour_table)"
  proof
    assume "twists ms rubik_cube = Inr st"
    then have "invariant st" by (rule reachable_invariant)
    then show "\<forall>c\<in>set (objects st). colours c = colour_table"
      by (simp add: invariant_def cube_ok_def)
  qed
  show ?thesis
    using f r
    by (simp add: rotate_x_def rotate_y_def rotate_z_def Cube_init_def colour_table_def)
qed

theorem colours_fixed_witness:
  "twists [(Z, 0, True)] rubik_cube = Inr front_turned \<and>
   list_all (\<lambda>c. colours c = colour_table) (objects front_turned)"
  using colours_fixed [where ms = "[(Z, 0, True)]" and st = front_turned] twists_front_turned
  by (simp add: list_all_iff)

subsection \<open>The labelling of the array\<close>

text \<open>
  C10: in the initial assembly the cube at index \<open>[i, j, k]\<close> has the centre
  \<open>(i - 1, 1 - j, 1 - k)\<close>, and so it has in every assembly that twists reach, by
  layers or by keys. Hence the view \<open>[:, :, 0]\<close> that the keys of the front layer
  twist holds exactly the cubes with z = 1, the view \<open>[:, 0]\<close> of the top layer
  exactly those with y = 1 and the view \<open>[0]\<close> of the left layer exactly those with
  x = - 1.
\<close>

theorem labelling_preserved:
  assumes "twists ms rubik_cube = Inr st"
  shows "(\<forall>p\<in>set slots. position (objects rubik_cube ! cell (cells rubik_cube) p) = label p) \<and>
         (\<forall>p\<in>set slots. position (objects st ! cell (cells st) p) = label p) \<and>
         (\<forall>m<27. (m \<in> set (concat (layer_cells Z 0 (cells st))) \<longleftrightarrow>
                     snd (snd (position (objects st ! m))) = 1) \<and>
                  (m \<in> set (concat (layer_cells Y 0 (cells st))) \<longleftrightarrow>
                     fst (snd (position (objects st ! m))) = 1) \<and>
                  (m \<in> set (concat (layer_cells X 0 (cells st))) \<longleftrightarrow>
                     fst (position (objects st ! m)) = - 1)) \<and>
         read_view (View2 0) (cells st) = Inr (layer_cells Z 0 (cells st)) \<and>
         read_view (View1 0) (cells st) = Inr (layer_cells Y 0 (cells st)) \<and>
         read_view (View0 0) (cells st) = Inr (layer_cells X 0 (cells st)) \<and>
         (\<exists>st'. key_events keys rubik_cube = Inr st' \<and>
            (\<forall>p\<in>set slots. position (objects st' ! cell (cells st') p) = label p))"
proof -
  from assms have i: "invariant st" by (rule reachable_invariant)
  then have w: "well_formed st" and l: "labelled st" by (simp_all add: invariant_def)
  from w have s: "shape3 (cells st)" and d: "distinct (concat (concat (cells st)))"
    by (simp_all add: well_formed_def)
  have 1: "\<forall>p\<in>set slots. position (objects rubik_cube ! cell (cells rubik_cube) p) = label p"
    using labelled_rubik_cube by (simp add: labelled_def)
  have 2: "\<forall>p\<in>set slots. position (objects st ! cell (cells st) p) = label p"
    using l by (simp add: labelled_def)
  have 3: "(m \<in> set (concat (layer_cells Z 0 (cells st))) \<longleftrightarrow>
              snd (snd (position (objects st ! m))) = 1) \<and>
           (m \<in> set (concat (layer_cells Y 0 (cells st))) \<longleftrightarrow>
              fst (snd (position (objects st ! m))) = 1) \<and>
           (m \<in> set (concat (layer_cells X 0 (cells st))) \<longleftrightarrow>
              fst (position (objects st ! m)) = - 1)" if "m < 27" for m
  proof -
    from cells_onto [OF w that] obtain p where p: "p \<in> set slots" and m: "m = cell (cells st) p"
      by blast
    obtain a b c where abc: "p = (a, b, c)" by (cases p) auto
    have n: "(0 :: nat) < 3" by simp
    have pos: "position (objects st ! m) = label p" using 2 p m by simp
    show ?thesis
      unfolding m in_layer_cells_iff [OF s d n p] pos [unfolded m]
      by (simp add: abc)
  qed
  from invariant_key_events [OF invariant_rubik_cube, of keys]
  have 4: "\<exists>st'. key_events keys rubik_cube = Inr st' \<and>
            (\<forall>p\<in>set slots. position (objects st' ! cell (cells st') p) = label p)"
    by (auto simp: invariant_def labelled_def)
  have 5: "read_view (View2 0) (cells st) = Inr (layer_cells Z 0 (cells st))"
    "read_view (View1 0) (cells st) = Inr (layer_cells Y 0 (cells st))"
    "read_view (View0 0) (cells st) = Inr (layer_cells X 0 (cells st))"
    by (simp_all add: layer_cells_def)
  from 1 2 3 4 5 show ?thesis by blast
qed

theorem labelling_preserved_witness:
  "twists [(Z, 0, True)] rubik_cube = Inr front_turned \<and>
   list_all (\<lambda>p. position (objects front_turned ! cell (cells front_turned) p) = label p) slots"
  using labelling_preserved [OF twists_front_turned] twists_front_turned
  by (simp add: list_all_iff)

end
